theory Spec2Isabelle
  imports Complex_Main "HOL-Library.Sublist" "HOL-Library.Multiset"
begin

section \<open>Strings: lower-casing, whitespace splitting, substring test\<close>

text \<open>
  A JavaScript string is a sequence of code units. A \<^typ>\<open>char\<close> here stands for the
  code unit with the same number, so a \<^typ>\<open>string\<close> covers the texts whose code units lie
  in U+0000 .. U+00FF. On that range \<^verbatim>\<open>toLowerCase\<close> maps the capital letters
  A-Z and the capital letters U+00C0 .. U+00DE (except the multiplication sign U+00D7) to
  the code unit 32 above, and the class \<^verbatim>\<open>\s\<close> of a regular expression holds
  the code units 9 .. 13, 32 and 160.
\<close>

definition toLowerChar :: "char \<Rightarrow> char" where
  "toLowerChar c =
     (let n = (of_char c :: nat)
      in if (65 \<le> n \<and> n \<le> 90) \<or> (192 \<le> n \<and> n \<le> 222 \<and> n \<noteq> 215)
         then char_of (n + 32) else c)"

definition toLowerCase :: "string \<Rightarrow> string" where
  "toLowerCase s = map toLowerChar s"

definition isSpace :: "char \<Rightarrow> bool" where
  "isSpace c = (let n = (of_char c :: nat) in (9 \<le> n \<and> n \<le> 13) \<or> n = 32 \<or> n = 160)"

text \<open>
  \<^verbatim>\<open>s.split(/\s+/)\<close>: the pieces of \<open>s\<close> between the maximal runs of white space.
  The empty string gives one empty piece, and white space at either end of \<open>s\<close> gives an
  empty piece there, so the result is never the empty list.
\<close>

function splitWs :: "string \<Rightarrow> string list" where
  "splitWs [] = [[]]"
| "splitWs (c # cs) =
     (if isSpace c then [] # splitWs (dropWhile isSpace cs)
      else (case splitWs cs of [] \<Rightarrow> [[c]] | t # ts \<Rightarrow> (c # t) # ts))"
  by pat_completeness auto
termination
  by (relation "measure length") (auto simp: length_dropWhile_le less_Suc_eq_le)

text \<open>\<^verbatim>\<open>s.includes(t)\<close>: \<open>t\<close> occurs in \<open>s\<close> as a contiguous block.\<close>

fun startsWith :: "string \<Rightarrow> string \<Rightarrow> bool" where
  "startsWith s [] = True"
| "startsWith [] (c # cs) = False"
| "startsWith (x # xs) (c # cs) = (x = c \<and> startsWith xs cs)"

fun includes_str :: "string \<Rightarrow> string \<Rightarrow> bool" where
  "includes_str [] t = (t = [])"
| "includes_str (x # xs) t = (startsWith (x # xs) t \<or> includes_str xs t)"


section \<open>Data model\<close>

text \<open>
  Numbers are modelled as exact reals: the model leaves rounding, infinities and NaN of
  IEEE doubles out. The values in the concrete examples below (\<open>1/2\<close>, \<open>3/4\<close>, \<open>1\<close>) are
  doubles. A time stamp (\<^verbatim>\<open>createdAt\<close>, \<^verbatim>\<open>updatedAt\<close>) is kept as the
  instant it denotes, in milliseconds: \<^verbatim>\<open>new Date().toISOString()\<close> writes that
  instant and \<^verbatim>\<open>new Date(s).getTime()\<close> reads it back.
\<close>

datatype json =
  JNull | JBool bool | JNum real | JStr string | JArr "json list" | JObj "(string \<times> json) list"

datatype MemoryType = Fact | Preference | Task | Event | Context | Reflection

record RememberInput =
  content :: string
  type :: "MemoryType option"
  importance :: "real option"
  metadata :: "(string \<times> json) list option"

record Memory =
  id_m :: string
  content :: string
  type :: MemoryType
  importance :: real
  createdAt :: int
  updatedAt :: int
  metadata :: "(string \<times> json) list option"

record MemorySearchResult =
  memory :: Memory
  score :: real

record RecallInput =
  query :: string
  limit :: "int option"
  types :: "MemoryType list option"
  minImportance :: "real option"

record SearchInput = RecallInput +
  minScore :: "real option"

record ForgetInput =
  memoryId :: string
  reason :: "string option"

text \<open>The options object of \<^verbatim>\<open>searchMemories\<close>.\<close>

record SearchOptions =
  limit :: "int option"
  types :: "MemoryType list option"
  minScore :: "real option"
  minImportance :: "real option"

text \<open>
  A path is the list of its components below the root. The text of a file is kept as what
  \<^verbatim>\<open>JSON.parse\<close> makes of it: an object with its \<^verbatim>\<open>memories\<close> and
  \<^verbatim>\<open>version\<close> properties, each of which may be missing, or a text that is no
  JSON. \<^verbatim>\<open>JSON.stringify\<close> followed by \<^verbatim>\<open>JSON.parse\<close> gives the records
  back as they were.
\<close>

type_synonym path = "string list"

record StorageData =
  memories :: "Memory list"
  version :: int

datatype file_text = JsonText "Memory list option" "int option" | Garbled

record FileSystem =
  dirs :: "path set"
  files :: "path \<rightharpoonup> file_text"

datatype error =
  SyntaxError | TypeError | ENOENT | EISDIR | ENOTDIR | HttpError string

record LocalConfig =
  storagePath :: "path option"
  debug :: "bool option"

record LocalBackend =
  storagePath :: path
  memories :: "Memory list"
  debug :: bool
  ready :: bool

section \<open>The keyword search engine of the local backend\<close>

text \<open>
  \<^verbatim>\<open>xs.slice(start, end)\<close> for integer arguments: a negative index counts from
  the end of the array, and both indices are clamped to the array.
\<close>

definition slice :: "'a list \<Rightarrow> int \<Rightarrow> int \<Rightarrow> 'a list" where
  "slice xs start finish =
     (let len = int (length xs);
          k = (if start < 0 then max (len + start) 0 else min start len);
          final = (if finish < 0 then max (len + finish) 0 else min finish len)
      in take (nat (final - k)) (drop (nat k) xs))"

text \<open>
  The inner loop over the content words: it stops at the first content word that contains
  the query word or is contained in it, and tells whether it stopped there.
\<close>

fun scanContent :: "string \<Rightarrow> string list \<Rightarrow> bool" where
  "scanContent qWord [] = False"
| "scanContent qWord (cWord # cWords) =
     (if includes_str cWord qWord \<or> includes_str qWord cWord then True
      else scanContent qWord cWords)"

text \<open>The outer loop over the query words, with the running \<^verbatim>\<open>matchCount\<close>.\<close>

fun countMatches :: "string list \<Rightarrow> string list \<Rightarrow> nat \<Rightarrow> nat" where
  "countMatches [] contentWords matchCount = matchCount"
| "countMatches (qWord # qWords) contentWords matchCount =
     countMatches qWords contentWords
       (if scanContent qWord contentWords then matchCount + 1 else matchCount)"

definition scoreMemory :: "string list \<Rightarrow> Memory \<Rightarrow> MemorySearchResult" where
  "scoreMemory queryWords m =
     (let contentWords = splitWs (toLowerCase (Memory.content m));
          matchCount = countMatches queryWords contentWords 0;
          baseScore = (if length queryWords > 0
                       then real matchCount / real (length queryWords) else 0);
          sc = baseScore * (1/2 + Memory.importance m * (1/2))
      in \<lparr> memory = m, score = sc \<rparr>)"

text \<open>
  The search over the records of the backend. \<^verbatim>\<open>Array.prototype.sort\<close> is stable, and
  the comparator \<^verbatim>\<open>b.score - a.score\<close> orders by falling score: this is the stable
  insertion sort \<^const>\<open>sort_key\<close> on the negated score.
\<close>

definition searchMemories ::
  "LocalBackend \<Rightarrow> string \<Rightarrow> SearchOptions \<Rightarrow> MemorySearchResult list" where
  "searchMemories b q options =
     (let queryWords = splitWs (toLowerCase q);
          lim = (case limit options of None \<Rightarrow> 5 | Some l \<Rightarrow> l);
          filtered = memories b;
          filtered = (case types options of
                        None \<Rightarrow> filtered
                      | Some ts \<Rightarrow> if length ts \<noteq> 0
                                  then filter (\<lambda>m. Memory.type m \<in> set ts) filtered
                                  else filtered);
          filtered = (case minImportance options of
                        None \<Rightarrow> filtered
                      | Some mi \<Rightarrow> filter (\<lambda>m. Memory.importance m \<ge> mi) filtered);
          scored = map (scoreMemory queryWords) filtered;
          results = filter (\<lambda>r. score r > 0) scored;
          results = (case minScore options of
                       None \<Rightarrow> results
                     | Some ms \<Rightarrow> filter (\<lambda>r. score r \<ge> ms) results);
          results = sort_key (\<lambda>r. - score r) results
      in slice results 0 lim)"


section \<open>The file system\<close>

text \<open>
  The part of Node's \<^verbatim>\<open>fs\<close> and \<^verbatim>\<open>path\<close> modules that the local backend
  calls. A file can be written when its directory exists and the path is not itself a
  directory; \<^verbatim>\<open>mkdirSync\<close> with \<^verbatim>\<open>recursive: true\<close> makes the directory
  and every missing ancestor, and fails when a file is in the way.
\<close>

definition dirname :: "path \<Rightarrow> path" where
  "dirname p = butlast p"

definition existsSync :: "FileSystem \<Rightarrow> path \<Rightarrow> bool" where
  "existsSync fs p = (p \<in> dirs fs \<or> files fs p \<noteq> None)"

definition mkdirSync :: "FileSystem \<Rightarrow> path \<Rightarrow> error + FileSystem" where
  "mkdirSync fs d =
     (if list_ex (\<lambda>q. files fs q \<noteq> None) (prefixes d) then Inl ENOTDIR
      else Inr (fs\<lparr>dirs := dirs fs \<union> set (prefixes d)\<rparr>))"

definition readFileSync :: "FileSystem \<Rightarrow> path \<Rightarrow> error + file_text" where
  "readFileSync fs p =
     (case files fs p of
        Some t \<Rightarrow> Inr t
      | None \<Rightarrow> Inl (if p \<in> dirs fs then EISDIR else ENOENT))"

definition writeFileSync :: "FileSystem \<Rightarrow> path \<Rightarrow> file_text \<Rightarrow> error + FileSystem" where
  "writeFileSync fs p t =
     (if p \<in> dirs fs then Inl EISDIR
      else if dirname p \<in> dirs fs then Inr (fs\<lparr>files := (files fs)(p \<mapsto> t)\<rparr>)
      else Inl ENOENT)"

definition JSON_stringify :: "StorageData \<Rightarrow> file_text" where
  "JSON_stringify d = JsonText (Some (StorageData.memories d)) (Some (version d))"

definition JSON_parse :: "file_text \<Rightarrow> error + (Memory list option \<times> int option)" where
  "JSON_parse t = (case t of JsonText ms v \<Rightarrow> Inr (ms, v) | Garbled \<Rightarrow> Inl SyntaxError)"

section \<open>The local backend\<close>

text \<open>
  Every operation takes the backend and, where it touches the disk, the file system, and
  returns them as it leaves them, also when it throws. The fresh identifier
  (\<^verbatim>\<open>randomUUID()\<close>) and the clock (\<^verbatim>\<open>new Date()\<close>) are arguments of
  \<open>remember\<close>. The debug lines written to the error stream are left out.
\<close>

definition new_LocalBackend :: "path \<Rightarrow> LocalConfig \<Rightarrow> LocalBackend" where
  "new_LocalBackend homedir config =
     \<lparr> storagePath = (case LocalConfig.storagePath config of
                        Some p \<Rightarrow> p
                      | None \<Rightarrow> homedir @ [''.lakehouse42'', ''memory-mcp'', ''memories.json'']),
       memories = [],
       debug = (case LocalConfig.debug config of Some d \<Rightarrow> d | None \<Rightarrow> False),
       ready = False \<rparr>"

definition initialize ::
  "LocalBackend \<Rightarrow> FileSystem \<Rightarrow> (error + unit) \<times> LocalBackend \<times> FileSystem" where
  "initialize b fs =
     (let dir = dirname (storagePath b)
      in case (if \<not> existsSync fs dir then mkdirSync fs dir else Inr fs) of
           Inl e \<Rightarrow> (Inl e, b, fs)
         | Inr fs1 \<Rightarrow>
             (let b1 =
                (if existsSync fs1 (storagePath b)
                 then (case readFileSync fs1 (storagePath b) of
                         Inl e \<Rightarrow> b\<lparr>memories := []\<rparr>
                       | Inr txt \<Rightarrow>
                           (case JSON_parse txt of
                              Inl e \<Rightarrow> b\<lparr>memories := []\<rparr>
                            | Inr data \<Rightarrow>
                                b\<lparr>memories := (case fst data of Some ms \<Rightarrow> ms | None \<Rightarrow> [])\<rparr>))
                 else b)
              in (Inr (), b1\<lparr>ready := True\<rparr>, fs1)))"

definition save :: "LocalBackend \<Rightarrow> FileSystem \<Rightarrow> error + FileSystem" where
  "save b fs =
     writeFileSync fs (storagePath b)
       (JSON_stringify \<lparr> StorageData.memories = memories b, version = 1 \<rparr>)"

definition remember ::
  "LocalBackend \<Rightarrow> FileSystem \<Rightarrow> string \<Rightarrow> int \<Rightarrow> RememberInput
     \<Rightarrow> (error + Memory) \<times> LocalBackend \<times> FileSystem" where
  "remember b fs uuid now input =
     (let m = \<lparr> id_m = uuid,
                content = RememberInput.content input,
                type = (case RememberInput.type input of Some t \<Rightarrow> t | None \<Rightarrow> Fact),
                importance = (case RememberInput.importance input of Some i \<Rightarrow> i | None \<Rightarrow> 1/2),
                createdAt = now,
                updatedAt = now,
                metadata = RememberInput.metadata input \<rparr>;
          b1 = b\<lparr>memories := memories b @ [m]\<rparr>
      in case save b1 fs of
           Inl e \<Rightarrow> (Inl e, b1, fs)
         | Inr fs1 \<Rightarrow> (Inr m, b1, fs1))"

definition recall :: "LocalBackend \<Rightarrow> RecallInput \<Rightarrow> MemorySearchResult list" where
  "recall b input =
     searchMemories b (query input)
       \<lparr> limit = RecallInput.limit input,
         types = RecallInput.types input,
         minScore = None,
         minImportance = RecallInput.minImportance input \<rparr>"

text \<open>\<^verbatim>\<open>findIndex\<close>: the index of the first element that passes the test, or \<open>-1\<close>.\<close>

fun findIndex :: "('a \<Rightarrow> bool) \<Rightarrow> 'a list \<Rightarrow> int" where
  "findIndex P [] = - 1"
| "findIndex P (x # xs) =
     (if P x then 0 else (let i = findIndex P xs in if i = - 1 then - 1 else i + 1))"

text \<open>\<^verbatim>\<open>xs.splice(index, 1)\<close> for an index inside the array.\<close>

definition splice1 :: "'a list \<Rightarrow> nat \<Rightarrow> 'a list" where
  "splice1 xs index = take index xs @ drop (Suc index) xs"

definition forget ::
  "LocalBackend \<Rightarrow> FileSystem \<Rightarrow> ForgetInput
     \<Rightarrow> (error + bool) \<times> LocalBackend \<times> FileSystem" where
  "forget b fs input =
     (let index = findIndex (\<lambda>m. id_m m = memoryId input) (memories b)
      in if index = - 1 then (Inr False, b, fs)
         else (let b1 = b\<lparr>memories := splice1 (memories b) (nat index)\<rparr>
               in case save b1 fs of
                    Inl e \<Rightarrow> (Inl e, b1, fs)
                  | Inr fs1 \<Rightarrow> (Inr True, b1, fs1)))"

definition search :: "LocalBackend \<Rightarrow> SearchInput \<Rightarrow> MemorySearchResult list" where
  "search b input =
     searchMemories b (query input)
       \<lparr> limit = RecallInput.limit input,
         types = RecallInput.types input,
         minScore = SearchInput.minScore input,
         minImportance = RecallInput.minImportance input \<rparr>"

definition get :: "LocalBackend \<Rightarrow> string \<Rightarrow> Memory option" where
  "get b memoryId' = List.find (\<lambda>m. id_m m = memoryId') (memories b)"

text \<open>
  \<^verbatim>\<open>list\<close> sorts the array of the backend itself (\<^verbatim>\<open>sort\<close> works in place) by
  falling \<^verbatim>\<open>updatedAt\<close> and returns a slice of it. The parameters default to
  \<open>20\<close> and \<open>0\<close>.
\<close>

definition list_m ::
  "LocalBackend \<Rightarrow> int option \<Rightarrow> int option \<Rightarrow> Memory list \<times> LocalBackend" where
  "list_m b limit' offset' =
     (let lim = (case limit' of Some l \<Rightarrow> l | None \<Rightarrow> 20);
          offset = (case offset' of Some k \<Rightarrow> k | None \<Rightarrow> 0);
          sorted_ms = sort_key (\<lambda>m. - updatedAt m) (memories b)
      in (slice sorted_ms offset (offset + lim), b\<lparr>memories := sorted_ms\<rparr>))"

definition isReady :: "LocalBackend \<Rightarrow> bool" where
  "isReady b = ready b"


section \<open>The score of the code as a formula\<close>

text \<open>
  \<open>tokens\<close> are the words of a text as the code makes them,
  \<^verbatim>\<open>s.toLowerCase().split(/\s+/)\<close>: the empty text has one empty token, and a text
  with white space at either end has an empty token there. Over given lists of tokens, a
  query token is matched when it is a contiguous part of some content token or some
  content token is a contiguous part of it, and the match ratio is the number of matched
  query tokens over the number of query tokens (\<open>0\<close> when there is none).
  \<open>spec_score\<close> is the formula of the specification, match ratio times
  \<open>0.5 + importance * 0.5\<close>, over the tokens of the code.
\<close>

definition tokens :: "string \<Rightarrow> string list" where
  "tokens s = splitWs (toLowerCase s)"

definition spec_matched :: "string \<Rightarrow> string list \<Rightarrow> bool" where
  "spec_matched qTok cToks = (\<exists>cTok \<in> set cToks. sublist qTok cTok \<or> sublist cTok qTok)"

definition spec_matchRatio :: "string list \<Rightarrow> string list \<Rightarrow> real" where
  "spec_matchRatio qToks cToks =
     (if qToks = [] then 0
      else real (length (filter (\<lambda>qTok. spec_matched qTok cToks) qToks)) / real (length qToks))"

definition spec_score :: "string \<Rightarrow> Memory \<Rightarrow> real" where
  "spec_score q m =
     spec_matchRatio (tokens q) (tokens (Memory.content m))
       * (1/2 + Memory.importance m * (1/2))"

section \<open>The scoring rule in the words of the specification\<close>

text \<open>
  In the specification the tokens of a text are obtained by lower-casing it and splitting
  it on white space, and the empty query has zero tokens: a token is a maximal run of
  characters that are not white space. The definitions below state this without the
  functions of the code: white space is a list of characters, lower-casing is the table
  that pairs each capital letter with its small letter, and the words are collected
  character by character. \<open>spec_rule_score\<close> is the score of the specification: the
  match ratio of these tokens times \<open>0.5 + importance * 0.5\<close>. A text is trimmed when it
  is not empty and neither begins nor ends with white space.
\<close>

definition spec_whitespace :: "char list" where
  "spec_whitespace = [CHR 0x09, CHR 0x0A, CHR 0x0B, CHR 0x0C, CHR 0x0D, CHR 0x20, CHR 0xA0]"

definition spec_capitals :: "char list" where
  "spec_capitals =
     ''ABCDEFGHIJKLMNOPQRSTUVWXYZ'' @
     [CHR 0xC0, CHR 0xC1, CHR 0xC2, CHR 0xC3, CHR 0xC4, CHR 0xC5, CHR 0xC6, CHR 0xC7,
      CHR 0xC8, CHR 0xC9, CHR 0xCA, CHR 0xCB, CHR 0xCC, CHR 0xCD, CHR 0xCE, CHR 0xCF,
      CHR 0xD0, CHR 0xD1, CHR 0xD2, CHR 0xD3, CHR 0xD4, CHR 0xD5, CHR 0xD6,
      CHR 0xD8, CHR 0xD9, CHR 0xDA, CHR 0xDB, CHR 0xDC, CHR 0xDD, CHR 0xDE]"

definition spec_smalls :: "char list" where
  "spec_smalls =
     ''abcdefghijklmnopqrstuvwxyz'' @
     [CHR 0xE0, CHR 0xE1, CHR 0xE2, CHR 0xE3, CHR 0xE4, CHR 0xE5, CHR 0xE6, CHR 0xE7,
      CHR 0xE8, CHR 0xE9, CHR 0xEA, CHR 0xEB, CHR 0xEC, CHR 0xED, CHR 0xEE, CHR 0xEF,
      CHR 0xF0, CHR 0xF1, CHR 0xF2, CHR 0xF3, CHR 0xF4, CHR 0xF5, CHR 0xF6,
      CHR 0xF8, CHR 0xF9, CHR 0xFA, CHR 0xFB, CHR 0xFC, CHR 0xFD, CHR 0xFE]"

definition spec_lower :: "string \<Rightarrow> string" where
  "spec_lower s =
     map (\<lambda>c. case map_of (zip spec_capitals spec_smalls) c of Some d \<Rightarrow> d | None \<Rightarrow> c) s"

fun spec_words :: "string \<Rightarrow> string \<Rightarrow> string list" where
  "spec_words w [] = (if w = [] then [] else [w])"
| "spec_words w (c # cs) =
     (if c \<in> set spec_whitespace
      then (if w = [] then spec_words [] cs else w # spec_words [] cs)
      else spec_words (w @ [c]) cs)"

definition spec_tokens :: "string \<Rightarrow> string list" where
  "spec_tokens s = spec_words [] (spec_lower s)"

definition spec_rule_score :: "string \<Rightarrow> Memory \<Rightarrow> real" where
  "spec_rule_score q m =
     spec_matchRatio (spec_tokens q) (spec_tokens (Memory.content m))
       * (1/2 + Memory.importance m * (1/2))"

definition spec_trimmed :: "string \<Rightarrow> bool" where
  "spec_trimmed s =
     (s \<noteq> [] \<and> hd s \<notin> set spec_whitespace \<and> last s \<notin> set spec_whitespace)"

section \<open>The search pipeline as one expression\<close>

text \<open>
  The conditions of the filtering pipeline, as the code applies them: a record passes when
  its type is in the given list, if a list with at least one type is given, and its
  importance reaches the floor, if one is given; a scored record is kept when its score is
  positive and reaches the score floor, if one is given. The qualifying records are
  ranked by falling score; the limit is \<open>5\<close> when none is given.
\<close>

definition passes_filters :: "SearchOptions \<Rightarrow> Memory \<Rightarrow> bool" where
  "passes_filters options m =
     ((case types options of None \<Rightarrow> True | Some ts \<Rightarrow> ts = [] \<or> Memory.type m \<in> set ts) \<and>
      (case minImportance options of None \<Rightarrow> True | Some mi \<Rightarrow> mi \<le> Memory.importance m))"

definition score_kept :: "SearchOptions \<Rightarrow> MemorySearchResult \<Rightarrow> bool" where
  "score_kept options r =
     (0 < score r \<and> (case minScore options of None \<Rightarrow> True | Some ms \<Rightarrow> ms \<le> score r))"

definition qualifying ::
  "LocalBackend \<Rightarrow> string \<Rightarrow> SearchOptions \<Rightarrow> MemorySearchResult list" where
  "qualifying b q options =
     filter (score_kept options)
       (map (\<lambda>m. \<lparr> memory = m, score = spec_score q m \<rparr>)
         (filter (passes_filters options) (memories b)))"

definition ranked ::
  "LocalBackend \<Rightarrow> string \<Rightarrow> SearchOptions \<Rightarrow> MemorySearchResult list" where
  "ranked b q options = sort_key (\<lambda>r. - score r) (qualifying b q options)"

definition recall_options :: "RecallInput \<Rightarrow> SearchOptions" where
  "recall_options input =
     \<lparr> limit = RecallInput.limit input, types = RecallInput.types input,
       minScore = None, minImportance = RecallInput.minImportance input \<rparr>"

definition search_options :: "SearchInput \<Rightarrow> SearchOptions" where
  "search_options input =
     \<lparr> limit = RecallInput.limit input, types = RecallInput.types input,
       minScore = SearchInput.minScore input,
       minImportance = RecallInput.minImportance input \<rparr>"

definition limit_of :: "SearchOptions \<Rightarrow> int" where
  "limit_of options = (case limit options of None \<Rightarrow> 5 | Some l \<Rightarrow> l)"

section \<open>The remote backend\<close>

text \<open>
  The remote backend sends one request per operation and maps the response. A request is
  kept as its endpoint with the values sent; the service is a function from requests to
  the outcome of \<^verbatim>\<open>fetch\<close>: a response, or an error when the request itself fails.
  A response has its status, the text of its body (\<^verbatim>\<open>response.text()\<close>) and the value
  that \<^verbatim>\<open>response.json()\<close> parses from it, \<open>None\<close> when the body is no JSON and
  \<^verbatim>\<open>json()\<close> throws. The health check of \<^verbatim>\<open>initialize\<close> is left out.
\<close>

record Response =
  status :: nat
  body_text :: string
  body_json :: "json option"

definition ok :: "Response \<Rightarrow> bool" where
  "ok response = (200 \<le> status response \<and> status response \<le> 299)"

datatype Request =
    PostProcess string MemoryType real "(string \<times> json) list option"
  | GetSearch string int "MemoryType list option" "real option"
  | Delete string "string option"
  | PostSearch string int "MemoryType list option" "real option" "real option"
  | GetMemory string
  | GetList int int

type_synonym service = "Request \<Rightarrow> error + Response"

text \<open>
  A value read from parsed JSON is a \<^typ>\<open>json option\<close>, \<open>None\<close> standing for
  \<^verbatim>\<open>undefined\<close>. Reading a property of \<^verbatim>\<open>null\<close> throws a \<^verbatim>\<open>TypeError\<close>;
  an object gives the value of the property or \<^verbatim>\<open>undefined\<close>; the other values have
  none of the properties that the backend reads.
\<close>

definition truthy :: "json option \<Rightarrow> bool" where
  "truthy v =
     (case v of
        None \<Rightarrow> False
      | Some JNull \<Rightarrow> False
      | Some (JBool c) \<Rightarrow> c
      | Some (JNum x) \<Rightarrow> x \<noteq> 0
      | Some (JStr s) \<Rightarrow> s \<noteq> []
      | Some (JArr xs) \<Rightarrow> True
      | Some (JObj kvs) \<Rightarrow> True)"

definition or_js :: "json option \<Rightarrow> json option \<Rightarrow> json option" where
  "or_js a c = (if truthy a then a else c)"

definition nullish :: "json option \<Rightarrow> json option \<Rightarrow> json option" where
  "nullish a c = (case a of None \<Rightarrow> c | Some JNull \<Rightarrow> c | Some v \<Rightarrow> Some v)"

definition get_prop :: "json \<Rightarrow> string \<Rightarrow> error + json option" where
  "get_prop data k =
     (case data of
        JNull \<Rightarrow> Inl TypeError
      | JObj kvs \<Rightarrow> Inr (map_of kvs k)
      | _ \<Rightarrow> Inr None)"

definition field :: "json \<Rightarrow> string \<Rightarrow> json option" where
  "field data k = (case data of JObj kvs \<Rightarrow> map_of kvs k | _ \<Rightarrow> None)"

text \<open>
  The record that \<^verbatim>\<open>toMemory\<close> builds. Its casts check nothing, so each field holds
  whatever value the response had.
\<close>

record JsMemory =
  id_j :: "json option"
  content_j :: "json option"
  type_j :: "json option"
  importance_j :: "json option"
  createdAt_j :: "json option"
  updatedAt_j :: "json option"
  metadata_j :: "json option"

definition toMemory :: "string \<Rightarrow> json \<Rightarrow> error + JsMemory" where
  "toMemory nowIso data =
     (if data = JNull then Inl TypeError
      else Inr
        \<lparr> id_j = or_js (field data ''id'') (field data ''memory_id''),
          content_j = field data ''content'',
          type_j = or_js (or_js (field data ''type'') (field data ''memory_type''))
                     (Some (JStr ''fact'')),
          importance_j = nullish (field data ''importance'') (Some (JNum (1/2))),
          createdAt_j = or_js (or_js (field data ''created_at'') (field data ''createdAt''))
                          (Some (JStr nowIso)),
          updatedAt_j = or_js (or_js (field data ''updated_at'') (field data ''updatedAt''))
                          (Some (JStr nowIso)),
          metadata_j = field data ''metadata'' \<rparr>)"

definition lh42_remember :: "service \<Rightarrow> string \<Rightarrow> RememberInput \<Rightarrow> error + JsMemory" where
  "lh42_remember srv nowIso input =
     (case srv (PostProcess (RememberInput.content input)
                  (case RememberInput.type input of Some t \<Rightarrow> t | None \<Rightarrow> Fact)
                  (case RememberInput.importance input of Some i \<Rightarrow> i | None \<Rightarrow> 1/2)
                  (RememberInput.metadata input)) of
        Inl e \<Rightarrow> Inl e
      | Inr response \<Rightarrow>
          if \<not> ok response
          then Inl (HttpError (''Failed to store memory: '' @ body_text response))
          else (case body_json response of
                  None \<Rightarrow> Inl SyntaxError
                | Some data \<Rightarrow> toMemory nowIso data))"

fun map_results :: "string \<Rightarrow> json list \<Rightarrow> error + (JsMemory \<times> json option) list" where
  "map_results nowIso [] = Inr []"
| "map_results nowIso (r # rs) =
     (case toMemory nowIso r of
        Inl e \<Rightarrow> Inl e
      | Inr m \<Rightarrow>
          (case map_results nowIso rs of
             Inl e \<Rightarrow> Inl e
           | Inr ms \<Rightarrow> Inr ((m, or_js (field r ''score'') (Some (JNum 0))) # ms)))"

definition read_results :: "string \<Rightarrow> Response \<Rightarrow> error + (JsMemory \<times> json option) list" where
  "read_results nowIso response =
     (case body_json response of
        None \<Rightarrow> Inl SyntaxError
      | Some data \<Rightarrow>
          (case get_prop data ''results'' of
             Inl e \<Rightarrow> Inl e
           | Inr rs \<Rightarrow>
               (case or_js rs (Some (JArr [])) of
                  Some (JArr xs) \<Rightarrow> map_results nowIso xs
                | _ \<Rightarrow> Inl TypeError)))"

definition lh42_recall ::
  "service \<Rightarrow> string \<Rightarrow> RecallInput \<Rightarrow> error + (JsMemory \<times> json option) list" where
  "lh42_recall srv nowIso input =
     (case srv (GetSearch (query input)
                  (case RecallInput.limit input of Some l \<Rightarrow> l | None \<Rightarrow> 5)
                  (case RecallInput.types input of
                     Some ts \<Rightarrow> if length ts \<noteq> 0 then Some ts else None
                   | None \<Rightarrow> None)
                  (RecallInput.minImportance input)) of
        Inl e \<Rightarrow> Inl e
      | Inr response \<Rightarrow>
          if \<not> ok response
          then Inl (HttpError (''Failed to recall memories: '' @ body_text response))
          else read_results nowIso response)"

definition lh42_forget :: "service \<Rightarrow> ForgetInput \<Rightarrow> error + bool" where
  "lh42_forget srv input =
     (case srv (Delete (memoryId input) (reason input)) of
        Inl e \<Rightarrow> Inl e
      | Inr response \<Rightarrow> Inr (ok response))"

definition lh42_search ::
  "service \<Rightarrow> string \<Rightarrow> SearchInput \<Rightarrow> error + (JsMemory \<times> json option) list" where
  "lh42_search srv nowIso input =
     (case srv (PostSearch (query input)
                  (case RecallInput.limit input of Some l \<Rightarrow> l | None \<Rightarrow> 10)
                  (RecallInput.types input)
                  (SearchInput.minScore input)
                  (RecallInput.minImportance input)) of
        Inl e \<Rightarrow> Inl e
      | Inr response \<Rightarrow>
          if \<not> ok response
          then Inl (HttpError (''Search failed: '' @ body_text response))
          else read_results nowIso response)"

definition lh42_get :: "service \<Rightarrow> string \<Rightarrow> string \<Rightarrow> error + JsMemory option" where
  "lh42_get srv nowIso memoryId' =
     (case srv (GetMemory memoryId') of
        Inl e \<Rightarrow> Inl e
      | Inr response \<Rightarrow>
          if status response = 404 then Inr None
          else if \<not> ok response
          then Inl (HttpError (''Failed to get memory: '' @ body_text response))
          else (case body_json response of
                  None \<Rightarrow> Inl SyntaxError
                | Some data \<Rightarrow>
                    (case toMemory nowIso data of
                       Inl e \<Rightarrow> Inl e
                     | Inr m \<Rightarrow> Inr (Some m))))"

fun map_memories :: "string \<Rightarrow> json list \<Rightarrow> error + JsMemory list" where
  "map_memories nowIso [] = Inr []"
| "map_memories nowIso (r # rs) =
     (case toMemory nowIso r of
        Inl e \<Rightarrow> Inl e
      | Inr m \<Rightarrow>
          (case map_memories nowIso rs of
             Inl e \<Rightarrow> Inl e
           | Inr ms \<Rightarrow> Inr (m # ms)))"

definition lh42_list ::
  "service \<Rightarrow> string \<Rightarrow> int option \<Rightarrow> int option \<Rightarrow> error + JsMemory list" where
  "lh42_list srv nowIso limit' offset' =
     (case srv (GetList (case limit' of Some l \<Rightarrow> l | None \<Rightarrow> 20)
                        (case offset' of Some k \<Rightarrow> k | None \<Rightarrow> 0)) of
        Inl e \<Rightarrow> Inl e
      | Inr response \<Rightarrow>
          if \<not> ok response
          then Inl (HttpError (''Failed to list memories: '' @ body_text response))
          else (case body_json response of
                  None \<Rightarrow> Inl SyntaxError
                | Some data \<Rightarrow>
                    (case get_prop data ''memories'' of
                       Inl e \<Rightarrow> Inl e
                     | Inr ms \<Rightarrow>
                         (case or_js ms (Some (JArr [])) of
                            Some (JArr xs) \<Rightarrow> map_memories nowIso xs
                          | _ \<Rightarrow> Inl TypeError))))"

section \<open>Example states\<close>

definition example_dark :: Memory where
  "example_dark =
     \<lparr> id_m = ''m-1'', content = ''user prefers dark mode for the editor'',
       type = Preference, importance = 1/2, createdAt = 1000, updatedAt = 1000,
       metadata = None \<rparr>"

definition example_light :: Memory where
  "example_light =
     \<lparr> id_m = ''m-2'', content = ''light theme'',
       type = Preference, importance = 1/2, createdAt = 2000, updatedAt = 2000,
       metadata = None \<rparr>"

definition example_low :: Memory where
  "example_low =
     \<lparr> id_m = ''m-3'', content = ''dark mode at night'',
       type = Fact, importance = 2/10, createdAt = 3000, updatedAt = 3000,
       metadata = None \<rparr>"

definition example_high :: Memory where
  "example_high =
     \<lparr> id_m = ''m-4'', content = ''switch to dark mode'',
       type = Task, importance = 9/10, createdAt = 4000, updatedAt = 4000,
       metadata = None \<rparr>"

definition example_backend :: LocalBackend where
  "example_backend =
     \<lparr> storagePath = [''home'', ''memories.json''],
       memories = [example_light, example_dark], debug = False, ready = True \<rparr>"

definition example_backend4 :: LocalBackend where
  "example_backend4 =
     \<lparr> storagePath = [''home'', ''memories.json''],
       memories = [example_low, example_light, example_high, example_dark],
       debug = False, ready = True \<rparr>"

definition example_fs :: FileSystem where
  "example_fs = \<lparr> dirs = {[], [''home'']}, files = Map.empty \<rparr>"

definition no_options :: SearchOptions where
  "no_options = \<lparr> limit = None, types = None, minScore = None, minImportance = None \<rparr>"

definition example_search_input :: SearchInput where
  "example_search_input =
     \<lparr> query = ''dark mode'', limit = Some 2, types = Some [Task, Preference],
       minImportance = Some (3/10), SearchInput.minScore = Some (1/2) \<rparr>"

definition example_recall_input :: RecallInput where
  "example_recall_input =
     \<lparr> query = ''Dark Mode'', limit = None, types = None, minImportance = None \<rparr>"

definition example_input :: RememberInput where
  "example_input =
     \<lparr> RememberInput.content = ''likes tea'', type = None, importance = None,
       metadata = None \<rparr>"

definition example_tea :: Memory where
  "example_tea =
     \<lparr> id_m = ''m-9'', content = ''likes tea'', type = Fact, importance = 1/2,
       createdAt = 5000, updatedAt = 5000, metadata = None \<rparr>"

definition example_failure :: Response where
  "example_failure = \<lparr> status = 500, body_text = ''database unavailable'', body_json = None \<rparr>"

definition example_missing :: Response where
  "example_missing = \<lparr> status = 404, body_text = ''no such memory'', body_json = None \<rparr>"

definition example_done :: Response where
  "example_done = \<lparr> status = 204, body_text = '''', body_json = None \<rparr>"

section \<open>Strings and scores: the loops of the code as a formula\<close>

lemma startsWith_prefix: "startsWith s t \<longleftrightarrow> prefix t s"
  by (induction s t rule: startsWith.induct) auto

lemma includes_str_sublist: "includes_str s t \<longleftrightarrow> sublist t s"
  by (induction s) (auto simp: startsWith_prefix sublist_Cons_right)

lemma splitWs_nonempty: "splitWs s \<noteq> []"
  by (induction s rule: splitWs.induct) (auto split: list.splits)

lemma scanContent_spec: "scanContent qWord cWords \<longleftrightarrow> spec_matched qWord cWords"
  by (induction cWords) (auto simp: spec_matched_def includes_str_sublist)

lemma countMatches_spec:
  "countMatches qWords cWords n = n + length (filter (\<lambda>q. spec_matched q cWords) qWords)"
  by (induction qWords arbitrary: n) (auto simp: scanContent_spec)

lemma scoreMemory_spec:
  "scoreMemory (tokens q) m = \<lparr> memory = m, score = spec_score q m \<rparr>"
  by (simp add: scoreMemory_def spec_score_def spec_matchRatio_def countMatches_spec
      tokens_def Let_def)

lemma slice_from_0: "slice xs 0 n = take (nat (if n < 0 then max (int (length xs) + n) 0 else n)) xs"
  by (auto simp: slice_def Let_def min_def max_def)

lemma set_slice_subset: "set (slice xs i j) \<subseteq> set xs"
  unfolding slice_def Let_def
  by (meson order_trans set_take_subset set_drop_subset)

lemma searchMemories_pipeline:
  "searchMemories b q options =
     slice (ranked b q options) 0 (limit_of options)"
proof -
  have sm: "scoreMemory (splitWs (toLowerCase q)) = (\<lambda>m. \<lparr> memory = m, score = spec_score q m \<rparr>)"
    using scoreMemory_spec [of q] by (simp add: tokens_def fun_eq_iff)
  show ?thesis
    unfolding searchMemories_def Let_def sm qualifying_def limit_of_def ranked_def
    by (auto simp: passes_filters_def score_kept_def split: option.splits
        intro!: arg_cong2 [where f = filter] arg_cong [where f = "sort_key _"]
                arg_cong2 [where f = "\<lambda>a b. slice a 0 b"] arg_cong [where f = "map _"])
qed

subsection \<open>The tokens of the code and the tokens of the specification\<close>

lemma isSpace_spec: "\<forall>c. isSpace c = (c \<in> set spec_whitespace)"
  by code_simp

lemma toLowerChar_spec:
  "\<forall>c. toLowerChar c
        = (case map_of (zip spec_capitals spec_smalls) c of Some d \<Rightarrow> d | None \<Rightarrow> c)"
  by code_simp

lemma isSpace_toLowerChar: "isSpace (toLowerChar c) = isSpace c"
proof -
  have "(n + 32) mod 256 = n + 32" if "n \<le> 222" for n :: nat
    using that by simp
  then show ?thesis
    by (auto simp: isSpace_def toLowerChar_def Let_def)
qed

lemma toLowerCase_spec: "toLowerCase s = spec_lower s"
  using toLowerChar_spec by (simp add: toLowerCase_def spec_lower_def)

lemma splitWs_dropWhile:
  "filter (\<lambda>t. t \<noteq> []) (splitWs (dropWhile isSpace cs)) = filter (\<lambda>t. t \<noteq> []) (splitWs cs)"
  by (cases cs) auto

lemma spec_words_splitWs:
  "spec_words w s =
     filter (\<lambda>t. t \<noteq> []) (case splitWs s of [] \<Rightarrow> [w] | t # ts \<Rightarrow> (w @ t) # ts)"
proof (induction s arbitrary: w)
  case Nil
  show ?case by simp
next
  case (Cons c cs)
  show ?case
  proof (cases "isSpace c")
    case True
    have "spec_words [] cs = filter (\<lambda>t. t \<noteq> []) (splitWs cs)"
      using Cons.IH [of "[]"] splitWs_nonempty [of cs] by (simp split: list.splits)
    with True show ?thesis
      using isSpace_spec by (simp add: splitWs_dropWhile)
  next
    case False
    with Cons.IH [of "w @ [c]"] show ?thesis
      using isSpace_spec splitWs_nonempty [of cs] by (simp split: list.splits)
  qed
qed

lemma spec_tokens_tokens: "spec_tokens s = filter (\<lambda>t. t \<noteq> []) (tokens s)"
  using splitWs_nonempty [of "toLowerCase s"]
  by (simp add: spec_tokens_def tokens_def spec_words_splitWs toLowerCase_spec [symmetric]
      split: list.splits)

lemma splitWs_trimmed:
  "s \<noteq> [] \<Longrightarrow> \<not> isSpace (last s) \<Longrightarrow>
     [] \<notin> set (tl (splitWs s)) \<and> (\<not> isSpace (hd s) \<longrightarrow> hd (splitWs s) \<noteq> [])"
proof (induction s rule: splitWs.induct)
  case 1
  then show ?case by simp
next
  case (2 c cs)
  show ?case
  proof (cases "isSpace c")
    case True
    let ?d = "dropWhile isSpace cs"
    from True "2.prems" have cs: "cs \<noteq> []" "\<not> isSpace (last cs)"
      by (auto split: if_splits)
    then have d: "?d \<noteq> []"
      by (metis dropWhile_eq_Nil_conv last_in_set)
    then have "\<not> isSpace (hd ?d)" by (simp add: hd_dropWhile)
    moreover have "last ?d = last cs"
      using d by (metis last_appendR takeWhile_dropWhile_id)
    ultimately have "[] \<notin> set (tl (splitWs ?d))" "hd (splitWs ?d) \<noteq> []"
      using "2.IH"(1) [OF True d] cs by simp_all
    then have "[] \<notin> set (splitWs ?d)"
      using splitWs_nonempty [of ?d] by (cases "splitWs ?d") auto
    with True show ?thesis by simp
  next
    case False
    show ?thesis
    proof (cases "cs = []")
      case True
      with False show ?thesis by simp
    next
      case ne: False
      with "2.prems" have "\<not> isSpace (last cs)" by simp
      with "2.IH"(2) [OF False ne] have "[] \<notin> set (tl (splitWs cs))" by simp
      with False show ?thesis
        using splitWs_nonempty [of cs] by (cases "splitWs cs") auto
    qed
  qed
qed

lemma tokens_trimmed: "spec_trimmed s \<Longrightarrow> [] \<notin> set (tokens s)"
proof -
  assume t: "spec_trimmed s"
  let ?l = "toLowerCase s"
  from t have s: "s \<noteq> []" "\<not> isSpace (hd s)" "\<not> isSpace (last s)"
    using isSpace_spec by (simp_all add: spec_trimmed_def)
  then have "?l \<noteq> []" "\<not> isSpace (hd ?l)" "\<not> isSpace (last ?l)"
    by (simp_all add: toLowerCase_def hd_map last_map isSpace_toLowerChar)
  then have "[] \<notin> set (tl (splitWs ?l))" "hd (splitWs ?l) \<noteq> []"
    using splitWs_trimmed [of ?l] by simp_all
  then show ?thesis
    using splitWs_nonempty [of ?l] by (cases "splitWs ?l") (auto simp: tokens_def)
qed

lemma spec_tokens_trimmed: "spec_trimmed s \<Longrightarrow> spec_tokens s = tokens s"
  using tokens_trimmed [of s] by (simp add: spec_tokens_tokens filter_id_conv) metis

lemma score_agrees:
  "spec_trimmed q \<Longrightarrow> spec_trimmed (Memory.content m) \<Longrightarrow>
     score (scoreMemory (splitWs (toLowerCase q)) m) = spec_rule_score q m"
  using scoreMemory_spec [of q m]
  by (simp add: spec_rule_score_def spec_score_def spec_tokens_trimmed tokens_def)

section \<open>The search pipeline\<close>

lemma recall_searchMemories: "recall b input = searchMemories b (query input) (recall_options input)"
  by (simp add: recall_def recall_options_def)

lemma search_searchMemories: "search b input = searchMemories b (query input) (search_options input)"
  by (simp add: search_def search_options_def)

lemma set_ranked: "set (ranked b q options) = set (qualifying b q options)"
  by (simp add: ranked_def)

lemma ranked_sorted: "sorted_wrt (\<lambda>r s. score s \<le> score r) (ranked b q options)"
proof -
  have "sorted (map (\<lambda>r. - score r) (ranked b q options))"
    unfolding ranked_def by (rule sorted_sort_key)
  then show ?thesis by (simp add: sorted_map)
qed

lemma searchMemories_take:
  "\<exists>n. searchMemories b q options = take n (ranked b q options) \<and>
       (0 \<le> limit_of options \<longrightarrow> n = nat (limit_of options))"
  unfolding searchMemories_pipeline slice_from_0 by auto

lemma in_qualifying:
  "r \<in> set (qualifying b q options) \<longleftrightarrow>
     (memory r \<in> set (memories b) \<and> passes_filters options (memory r) \<and>
      score r = spec_score q (memory r) \<and> score_kept options r)"
  by (cases r) (auto simp: qualifying_def)

lemma searchMemories_sound:
  assumes "r \<in> set (searchMemories b q options)"
  shows "r \<in> set (qualifying b q options)"
  using assms set_slice_subset [of "ranked b q options" 0 "limit_of options"]
  by (auto simp: searchMemories_pipeline set_ranked)

lemma searchMemories_sorted:
  "sorted_wrt (\<lambda>r s. score s \<le> score r) (searchMemories b q options)"
proof -
  obtain n where "searchMemories b q options = take n (ranked b q options)"
    using searchMemories_take by blast
  then show ?thesis using ranked_sorted [of b q options] sorted_wrt_take by metis
qed

lemma spec_score_mono:
  assumes "spec_matchRatio (tokens q) (tokens (Memory.content m1)) = spec_matchRatio (tokens q) (tokens (Memory.content m2))"
    and "0 < spec_matchRatio (tokens q) (tokens (Memory.content m2))"
    and "Memory.importance m2 < Memory.importance m1"
  shows "spec_score q m2 < spec_score q m1"
  using assms by (simp add: spec_score_def)

lemma searchMemories_rank:
  assumes j: "j < length (searchMemories b q options)"
    and m2: "memory (searchMemories b q options ! j) = m2"
    and m1: "m1 \<in> set (memories b)" "passes_filters options m1"
    and lt: "spec_score q m2 < spec_score q m1"
  shows "\<exists>i<j. searchMemories b q options ! i = \<lparr> memory = m1, score = spec_score q m1 \<rparr>"
proof -
  let ?S = "ranked b q options"
  let ?r1 = "\<lparr> memory = m1, score = spec_score q m1 \<rparr>"
  obtain n where res: "searchMemories b q options = take n ?S"
    using searchMemories_take by blast
  from j res have jn: "j < n" "j < length ?S" by simp_all
  have r2: "searchMemories b q options ! j = ?S ! j" using res jn by simp
  have "?S ! j \<in> set (qualifying b q options)"
    using jn set_ranked nth_mem by blast
  then have q2: "score (?S ! j) = spec_score q m2" "score_kept options (?S ! j)"
    using m2 r2 by (auto simp: in_qualifying)
  have "score_kept options ?r1"
    using q2 lt by (auto simp: score_kept_def split: option.splits)
  then have "?r1 \<in> set ?S"
    using m1 by (simp add: set_ranked in_qualifying)
  then obtain i where i: "i < length ?S" "?S ! i = ?r1"
    by (auto simp: in_set_conv_nth)
  have "i < j"
  proof (rule ccontr)
    assume "\<not> i < j"
    then consider "i = j" | "j < i" by linarith
    then show False
    proof cases
      case 1
      with i q2 lt show False by simp
    next
      case 2
      then have "score (?S ! i) \<le> score (?S ! j)"
        by (rule sorted_wrt_nth_less [OF ranked_sorted [of b q options] _ i(1)])
      with i q2 lt show False by simp
    qed
  qed
  moreover have "searchMemories b q options ! i = ?r1"
    using res \<open>i < j\<close> jn i by simp
  ultimately show ?thesis by blast
qed

lemma searchMemories_complete:
  assumes "m \<in> set (memories b)" "passes_filters options m"
    and "score_kept options \<lparr> memory = m, score = spec_score q m \<rparr>"
  shows "\<exists>i < length (ranked b q options).
           ranked b q options ! i = \<lparr> memory = m, score = spec_score q m \<rparr> \<and>
           (int i < limit_of options \<longrightarrow>
              \<lparr> memory = m, score = spec_score q m \<rparr> \<in> set (searchMemories b q options))"
proof -
  let ?S = "ranked b q options"
  let ?r = "\<lparr> memory = m, score = spec_score q m \<rparr>"
  have "?r \<in> set ?S" using assms by (simp add: set_ranked in_qualifying)
  then obtain i where i: "i < length ?S" "?S ! i = ?r"
    by (auto simp: in_set_conv_nth)
  have "?r \<in> set (searchMemories b q options)" if "int i < limit_of options"
  proof -
    have "searchMemories b q options = take (nat (limit_of options)) ?S"
      using searchMemories_take [of b q options] that by auto
    moreover have "i < nat (limit_of options)" using that by linarith
    ultimately show ?thesis using i by (auto simp: in_set_conv_nth)
  qed
  with i show ?thesis by blast
qed

section \<open>Scores\<close>

lemma example_dark_score:
  "score (scoreMemory (splitWs (toLowerCase ''dark mode'')) example_dark) = 3/4"
  unfolding example_dark_def by code_simp

lemma example_light_score:
  "score (scoreMemory (splitWs (toLowerCase ''dark mode'')) example_light) = 0"
  unfolding example_light_def by code_simp

lemma example_search:
  "searchMemories example_backend ''dark mode'' no_options
     = [\<lparr> memory = example_dark, score = 3/4 \<rparr>]"
  by code_simp

lemma example_search4:
  "search example_backend4 example_search_input
     = [\<lparr> memory = example_high, score = 19/20 \<rparr>, \<lparr> memory = example_dark, score = 3/4 \<rparr>]"
  by code_simp

lemma example_recall4:
  "recall example_backend4 example_recall_input
     = [\<lparr> memory = example_high, score = 19/20 \<rparr>, \<lparr> memory = example_dark, score = 3/4 \<rparr>,
        \<lparr> memory = example_low, score = 3/5 \<rparr>]"
  by code_simp

lemma searchMemories_score:
  "r \<in> set (searchMemories b q options) \<Longrightarrow> score r = spec_score q (memory r)"
  using searchMemories_sound [of r b q options] by (simp add: in_qualifying)

lemma example_rule_scores:
  "spec_rule_score ''dark mode'' example_dark = 3/4"
  "spec_rule_score ''dark mode'' example_light = 0"
  "spec_rule_score '''' example_light = 0"
  unfolding example_dark_def example_light_def by code_simp+

lemma example_empty_query_score:
  "score (scoreMemory (splitWs (toLowerCase '''')) example_light) = 3/4"
  unfolding example_light_def by code_simp

lemma example_blank_query_score:
  "score (scoreMemory (splitWs (toLowerCase '' dark'')) example_light) = 3/8"
  "spec_rule_score '' dark'' example_light = 0"
  unfolding example_light_def by code_simp+

text \<open>
  Claim C1 says that for every record and every query the score of the search engine is
  the rule of the specification. On the code this holds for every query and every content
  that are trimmed (not empty, no white space at either end): there the nested loops with
  the early exit compute \<^const>\<open>spec_rule_score\<close>, every result of a search carries that
  score, and the two examples of the claim come out as \<open>0.75\<close> and \<open>0\<close>. It fails for
  the empty query: the rule gives the score \<open>0\<close>, the query having no token, and the code
  gives \<open>0.75\<close> for the content "light theme" with importance \<open>0.5\<close>, because its
  tokeniser returns one empty token, which every word contains. This is the defect of
  claim C2. A blank at the start of the query has the same effect: for the query " dark"
  the rule gives \<open>0\<close> and the code \<open>0.375\<close>.
\<close>

theorem score_rule:
  "(spec_trimmed q \<and> spec_trimmed (Memory.content m) \<longrightarrow>
      score (scoreMemory (splitWs (toLowerCase q)) m) = spec_rule_score q m) \<and>
   (\<forall>r \<in> set (searchMemories b q options).
      spec_trimmed q \<and> spec_trimmed (Memory.content (memory r)) \<longrightarrow>
      score r = spec_rule_score q (memory r)) \<and>
   score (scoreMemory (splitWs (toLowerCase ''dark mode'')) example_dark) = 3/4 \<and>
   spec_rule_score ''dark mode'' example_dark = 3/4 \<and>
   score (scoreMemory (splitWs (toLowerCase ''dark mode'')) example_light) = 0 \<and>
   spec_rule_score ''dark mode'' example_light = 0 \<and>
   searchMemories example_backend ''dark mode'' no_options
     = [\<lparr> memory = example_dark, score = 3/4 \<rparr>] \<and>
   score (scoreMemory (splitWs (toLowerCase '''')) example_light) = 3/4 \<and>
   spec_rule_score '''' example_light = 0 \<and>
   score (scoreMemory (splitWs (toLowerCase '' dark'')) example_light) = 3/8 \<and>
   spec_rule_score '' dark'' example_light = 0"
proof (intro conjI impI ballI)
  assume "spec_trimmed q \<and> spec_trimmed (Memory.content m)"
  then show "score (scoreMemory (splitWs (toLowerCase q)) m) = spec_rule_score q m"
    by (simp add: score_agrees)
next
  fix r
  assume r: "r \<in> set (searchMemories b q options)"
    and t: "spec_trimmed q \<and> spec_trimmed (Memory.content (memory r))"
  have "score r = score (scoreMemory (splitWs (toLowerCase q)) (memory r))"
    using searchMemories_score [OF r] scoreMemory_spec [of q "memory r"]
    by (simp add: tokens_def)
  with t show "score r = spec_rule_score q (memory r)"
    by (simp add: score_agrees)
qed (simp_all add: example_dark_score example_light_score example_search example_rule_scores
    example_empty_query_score example_blank_query_score)

theorem score_rule_witness:
  "spec_trimmed ''Mode DARK'' \<and>
   spec_trimmed (Memory.content example_dark) \<and>
   score (scoreMemory (splitWs (toLowerCase ''Mode DARK'')) example_dark) = 3/4 \<and>
   spec_rule_score ''Mode DARK'' example_dark = 3/4 \<and>
   search example_backend4 example_search_input
     = [\<lparr> memory = example_high, score = 19/20 \<rparr>, \<lparr> memory = example_dark, score = 3/4 \<rparr>] \<and>
   spec_rule_score ''dark mode'' example_high = 19/20"
proof -
  have t: "spec_trimmed ''Mode DARK''" "spec_trimmed (Memory.content example_dark)"
    "spec_trimmed ''dark mode''" "spec_trimmed (Memory.content example_high)"
    unfolding example_dark_def example_high_def by code_simp+
  have v: "spec_rule_score ''Mode DARK'' example_dark = 3/4"
    unfolding example_dark_def by code_simp
  have 1: "score (scoreMemory (splitWs (toLowerCase ''Mode DARK'')) example_dark) = 3/4"
    using score_rule [THEN conjunct1, rule_format, of "''Mode DARK''" example_dark] t v
    by simp
  have r: "\<lparr> memory = example_high, score = 19/20 \<rparr>
             \<in> set (searchMemories example_backend4 ''dark mode''
                       (search_options example_search_input))"
    using example_search4 by (simp add: search_searchMemories example_search_input_def)
  have 2: "spec_rule_score ''dark mode'' example_high = 19/20"
    using score_rule [THEN conjunct2, THEN conjunct1, THEN bspec, OF r] t by simp
  show ?thesis using t 1 v 2 by (simp add: example_search4)
qed

subsection \<open>The empty query\<close>

lemma includes_str_empty: "includes_str s []"
  by (simp add: includes_str_sublist)

lemma empty_query_score:
  "score (scoreMemory (splitWs (toLowerCase '''')) m) = 1/2 + Memory.importance m * (1/2)"
proof -
  obtain c cs where "splitWs (toLowerCase (Memory.content m)) = c # cs"
    using splitWs_nonempty by (meson list.exhaust)
  then show ?thesis
    by (simp add: scoreMemory_def toLowerCase_def Let_def includes_str_empty)
qed

text \<open>
  Claim C2 says that recall with the empty query returns nothing, the empty query having
  no tokens. In the code \<^verbatim>\<open>"".split(/\s+/)\<close> is the array holding one empty string,
  so the query has one token; the empty string is contained in every content word, the
  match ratio is \<open>1\<close> and the score of a record is \<open>0.5 + importance * 0.5\<close>. The guard
  \<^verbatim>\<open>queryWords.length > 0\<close> of the code never takes its \<open>0\<close> branch. On the example
  backend, recall with the empty query returns both records.
\<close>

theorem recall_empty_query:
  "splitWs (toLowerCase '''') = [''''] \<and>
   score (scoreMemory (splitWs (toLowerCase '''')) m) = 1/2 + Memory.importance m * (1/2) \<and>
   recall example_backend \<lparr> query = '''', limit = None, types = None, minImportance = None \<rparr>
     = [\<lparr> memory = example_light, score = 3/4 \<rparr>, \<lparr> memory = example_dark, score = 3/4 \<rparr>]"
proof -
  have "recall example_backend
          \<lparr> query = '''', limit = None, types = None, minImportance = None \<rparr>
     = [\<lparr> memory = example_light, score = 3/4 \<rparr>, \<lparr> memory = example_dark, score = 3/4 \<rparr>]"
    by code_simp
  then show ?thesis using empty_query_score [of m] by (simp add: toLowerCase_def)
qed

section \<open>Filters\<close>

lemma search_as_recall:
  "recall b input =
     search b \<lparr> query = query input, limit = RecallInput.limit input,
                types = RecallInput.types input,
                minImportance = RecallInput.minImportance input,
                SearchInput.minScore = None \<rparr>"
  by (simp add: recall_def search_def)

lemma passes_filters_iff:
  "passes_filters options m \<longleftrightarrow>
     ((\<forall>ts. types options = Some ts \<and> ts \<noteq> [] \<longrightarrow> Memory.type m \<in> set ts) \<and>
      (\<forall>mi. minImportance options = Some mi \<longrightarrow> mi \<le> Memory.importance m))"
  by (auto simp: passes_filters_def split: option.splits)

lemma score_kept_iff:
  "score_kept options r \<longleftrightarrow>
     (0 < score r \<and> (\<forall>ms. minScore options = Some ms \<longrightarrow> ms \<le> score r))"
  by (auto simp: score_kept_def split: option.splits)

text \<open>
  Claim C3, as stated, fails when an empty list of types is given: the code tests
  \<^verbatim>\<open>options.types?.length\<close>, so it filters by type only when the list holds at
  least one type, and a search with the empty list returns records whose type is in no
  given set.
\<close>

theorem empty_types_counterexample:
  "recall example_backend
     \<lparr> query = ''dark mode'', limit = None, types = Some [], minImportance = None \<rparr>
     = [\<lparr> memory = example_dark, score = 3/4 \<rparr>] \<and>
   Memory.type example_dark \<notin> set []"
proof -
  have "recall example_backend
     \<lparr> query = ''dark mode'', limit = None, types = Some [], minImportance = None \<rparr>
     = [\<lparr> memory = example_dark, score = 3/4 \<rparr>]"
    by code_simp
  then show ?thesis by simp
qed

text \<open>
  Claim C3, amended. Recall is search without a score floor. Every record that search or
  recall returns is a stored record with its score, belongs to the given types when a
  list with at least one type is given, has an importance of at least
  \<open>minImportance\<close> when that is given, has a positive score and, for search with
  \<open>minScore\<close> given, a score of at least \<open>minScore\<close>. Every stored record that
  meets these conditions has a place in the ranking of the qualifying records, and is in
  the results when that place is below the limit.
\<close>

theorem filter_correctness:
  "recall b rinput =
     search b \<lparr> query = query rinput, limit = RecallInput.limit rinput,
                types = RecallInput.types rinput,
                minImportance = RecallInput.minImportance rinput,
                SearchInput.minScore = None \<rparr> \<and>
   (\<forall>r \<in> set (search b input).
      memory r \<in> set (memories b) \<and>
      score r = spec_score (query input) (memory r) \<and>
      (\<forall>ts. RecallInput.types input = Some ts \<and> ts \<noteq> [] \<longrightarrow> Memory.type (memory r) \<in> set ts) \<and>
      (\<forall>mi. RecallInput.minImportance input = Some mi \<longrightarrow> mi \<le> Memory.importance (memory r)) \<and>
      0 < score r \<and>
      (\<forall>ms. SearchInput.minScore input = Some ms \<longrightarrow> ms \<le> score r)) \<and>
   (\<forall>r \<in> set (recall b rinput).
      memory r \<in> set (memories b) \<and>
      score r = spec_score (query rinput) (memory r) \<and>
      (\<forall>ts. RecallInput.types rinput = Some ts \<and> ts \<noteq> [] \<longrightarrow> Memory.type (memory r) \<in> set ts) \<and>
      (\<forall>mi. RecallInput.minImportance rinput = Some mi \<longrightarrow> mi \<le> Memory.importance (memory r)) \<and>
      0 < score r) \<and>
   (\<forall>m \<in> set (memories b).
      (\<forall>ts. RecallInput.types input = Some ts \<and> ts \<noteq> [] \<longrightarrow> Memory.type m \<in> set ts) \<and>
      (\<forall>mi. RecallInput.minImportance input = Some mi \<longrightarrow> mi \<le> Memory.importance m) \<and>
      0 < spec_score (query input) m \<and>
      (\<forall>ms. SearchInput.minScore input = Some ms \<longrightarrow> ms \<le> spec_score (query input) m)
      \<longrightarrow> (\<exists>i < length (ranked b (query input) (search_options input)).
             ranked b (query input) (search_options input) ! i
               = \<lparr> memory = m, score = spec_score (query input) m \<rparr> \<and>
             (int i < limit_of (search_options input) \<longrightarrow>
                \<lparr> memory = m, score = spec_score (query input) m \<rparr> \<in> set (search b input)))) \<and>
   (\<forall>m \<in> set (memories b).
      (\<forall>ts. RecallInput.types rinput = Some ts \<and> ts \<noteq> [] \<longrightarrow> Memory.type m \<in> set ts) \<and>
      (\<forall>mi. RecallInput.minImportance rinput = Some mi \<longrightarrow> mi \<le> Memory.importance m) \<and>
      0 < spec_score (query rinput) m
      \<longrightarrow> (\<exists>i < length (ranked b (query rinput) (recall_options rinput)).
             ranked b (query rinput) (recall_options rinput) ! i
               = \<lparr> memory = m, score = spec_score (query rinput) m \<rparr> \<and>
             (int i < limit_of (recall_options rinput) \<longrightarrow>
                \<lparr> memory = m, score = spec_score (query rinput) m \<rparr> \<in> set (recall b rinput))))"
proof (intro conjI ballI impI)
  show "recall b rinput =
     search b \<lparr> query = query rinput, limit = RecallInput.limit rinput,
                types = RecallInput.types rinput,
                minImportance = RecallInput.minImportance rinput,
                SearchInput.minScore = None \<rparr>"
    by (rule search_as_recall)
next
  fix r assume "r \<in> set (search b input)"
  then have "r \<in> set (qualifying b (query input) (search_options input))"
    unfolding search_searchMemories by (rule searchMemories_sound)
  then show "memory r \<in> set (memories b)" 
    "score r = spec_score (query input) (memory r)"
    "\<forall>ts. RecallInput.types input = Some ts \<and> ts \<noteq> [] \<longrightarrow> Memory.type (memory r) \<in> set ts"
    "\<forall>mi. RecallInput.minImportance input = Some mi \<longrightarrow> mi \<le> Memory.importance (memory r)"
    "0 < score r"
    "\<forall>ms. SearchInput.minScore input = Some ms \<longrightarrow> ms \<le> score r"
    by (auto simp: in_qualifying passes_filters_iff score_kept_iff search_options_def)
next
  fix r assume "r \<in> set (recall b rinput)"
  then have "r \<in> set (qualifying b (query rinput) (recall_options rinput))"
    unfolding recall_searchMemories by (rule searchMemories_sound)
  then show "memory r \<in> set (memories b)" 
    "score r = spec_score (query rinput) (memory r)"
    "\<forall>ts. RecallInput.types rinput = Some ts \<and> ts \<noteq> [] \<longrightarrow> Memory.type (memory r) \<in> set ts"
    "\<forall>mi. RecallInput.minImportance rinput = Some mi \<longrightarrow> mi \<le> Memory.importance (memory r)"
    "0 < score r"
    by (auto simp: in_qualifying passes_filters_iff score_kept_iff recall_options_def)
next
  fix m
  assume m: "m \<in> set (memories b)"
    and c: "(\<forall>ts. RecallInput.types input = Some ts \<and> ts \<noteq> [] \<longrightarrow> Memory.type m \<in> set ts) \<and>
      (\<forall>mi. RecallInput.minImportance input = Some mi \<longrightarrow> mi \<le> Memory.importance m) \<and>
      0 < spec_score (query input) m \<and>
      (\<forall>ms. SearchInput.minScore input = Some ms \<longrightarrow> ms \<le> spec_score (query input) m)"
  from c have "passes_filters (search_options input) m"
    "score_kept (search_options input) \<lparr> memory = m, score = spec_score (query input) m \<rparr>"
    by (simp_all add: passes_filters_iff score_kept_iff search_options_def)
  from searchMemories_complete [OF m this]
  show "\<exists>i < length (ranked b (query input) (search_options input)).
             ranked b (query input) (search_options input) ! i
               = \<lparr> memory = m, score = spec_score (query input) m \<rparr> \<and>
             (int i < limit_of (search_options input) \<longrightarrow>
                \<lparr> memory = m, score = spec_score (query input) m \<rparr> \<in> set (search b input))"
    by (simp add: search_searchMemories)
next
  fix m
  assume m: "m \<in> set (memories b)"
    and c: "(\<forall>ts. RecallInput.types rinput = Some ts \<and> ts \<noteq> [] \<longrightarrow> Memory.type m \<in> set ts) \<and>
      (\<forall>mi. RecallInput.minImportance rinput = Some mi \<longrightarrow> mi \<le> Memory.importance m) \<and>
      0 < spec_score (query rinput) m"
  from c have "passes_filters (recall_options rinput) m"
    "score_kept (recall_options rinput) \<lparr> memory = m, score = spec_score (query rinput) m \<rparr>"
    by (simp_all add: passes_filters_iff score_kept_iff recall_options_def)
  from searchMemories_complete [OF m this]
  show "\<exists>i < length (ranked b (query rinput) (recall_options rinput)).
             ranked b (query rinput) (recall_options rinput) ! i
               = \<lparr> memory = m, score = spec_score (query rinput) m \<rparr> \<and>
             (int i < limit_of (recall_options rinput) \<longrightarrow>
                \<lparr> memory = m, score = spec_score (query rinput) m \<rparr> \<in> set (recall b rinput))"
    by (simp add: recall_searchMemories)
qed

lemma example_low_score: "spec_score ''Dark Mode'' example_low = 3/5"
  unfolding example_low_def by code_simp

theorem filter_correctness_witness:
  "search example_backend4 example_search_input
     = [\<lparr> memory = example_high, score = 19/20 \<rparr>, \<lparr> memory = example_dark, score = 3/4 \<rparr>] \<and>
   Memory.type example_high \<in> set [Task, Preference] \<and>
   3/10 \<le> Memory.importance example_high \<and>
   spec_score ''dark mode'' example_high = 19/20 \<and>
   (\<exists>i < length (ranked example_backend4 ''Dark Mode'' (recall_options example_recall_input)).
      ranked example_backend4 ''Dark Mode'' (recall_options example_recall_input) ! i
        = \<lparr> memory = example_low, score = 3/5 \<rparr>) \<and>
   example_low \<in> set (map memory (recall example_backend4 example_recall_input))"
proof -
  note inst = filter_correctness [of example_backend4 example_recall_input example_search_input]
  have r: "\<lparr> memory = example_high, score = 19/20 \<rparr> \<in> set (search example_backend4 example_search_input)"
    by (simp add: example_search4)
  have 1: "Memory.type example_high \<in> set [Task, Preference] \<and>
        spec_score ''dark mode'' example_high = 19/20"
    using inst [THEN conjunct2, THEN conjunct1, THEN bspec, OF r]
    by (simp add: example_search_input_def)
  have q: "query example_recall_input = ''Dark Mode''"
    by (simp add: example_recall_input_def)
  have mem: "example_low \<in> set (memories example_backend4)"
    by (simp add: example_backend4_def)
  have c: "(\<forall>ts. RecallInput.types example_recall_input = Some ts \<and> ts \<noteq> []
              \<longrightarrow> Memory.type example_low \<in> set ts) \<and>
      (\<forall>mi. RecallInput.minImportance example_recall_input = Some mi
              \<longrightarrow> mi \<le> Memory.importance example_low) \<and>
      0 < spec_score (query example_recall_input) example_low"
    by (simp add: q example_low_score) (simp add: example_recall_input_def)
  have 2: "\<exists>i < length (ranked example_backend4 ''Dark Mode'' (recall_options example_recall_input)).
      ranked example_backend4 ''Dark Mode'' (recall_options example_recall_input) ! i
        = \<lparr> memory = example_low, score = 3/5 \<rparr>"
    using inst [THEN conjunct2, THEN conjunct2, THEN conjunct2, THEN conjunct2, THEN bspec,
        OF mem, rule_format, OF c]
    by (auto simp: q example_low_score)
  show ?thesis
    using 1 2 by (simp add: example_search4 example_recall4 example_high_def)
qed

section \<open>Ranking\<close>

lemma searchMemories_rank_importance:
  assumes j: "j < length (searchMemories b q options)"
    and m1: "m1 \<in> set (memories b)"
    and ty: "\<forall>ts. types options = Some ts \<and> ts \<noteq> [] \<longrightarrow> Memory.type m1 \<in> set ts"
    and eq: "spec_matchRatio (tokens q) (tokens (Memory.content m1))
             = spec_matchRatio (tokens q) (tokens (Memory.content (memory (searchMemories b q options ! j))))"
    and pos: "0 < spec_matchRatio (tokens q) (tokens (Memory.content m1))"
    and imp: "Memory.importance (memory (searchMemories b q options ! j)) < Memory.importance m1"
  shows "\<exists>i<j. searchMemories b q options ! i = \<lparr> memory = m1, score = spec_score q m1 \<rparr>"
proof -
  let ?m2 = "memory (searchMemories b q options ! j)"
  have "searchMemories b q options ! j \<in> set (qualifying b q options)"
    using j searchMemories_sound nth_mem by blast
  then have "passes_filters options ?m2"
    by (simp add: in_qualifying)
  with imp ty have p1: "passes_filters options m1"
    by (fastforce simp: passes_filters_iff)
  have "spec_score q ?m2 < spec_score q m1"
    using eq pos imp by (intro spec_score_mono) simp_all
  from searchMemories_rank [OF j refl m1 p1 this] show ?thesis .
qed

text \<open>
  Claim C4. The results of search and of recall are in the order of falling score. At
  equal positive match ratio the score grows strictly with the importance. Hence when a
  result has a lower importance than a stored record of the same positive match ratio
  that passes the type filter (importances \<open>0.2\<close> and \<open>0.9\<close>, say), the record of
  higher importance stands before it in the results.
\<close>

theorem ranking_by_score:
  "sorted_wrt (\<lambda>r s. score s \<le> score r) (search b input) \<and>
   sorted_wrt (\<lambda>r s. score s \<le> score r) (recall b rinput) \<and>
   (spec_matchRatio (tokens q) (tokens (Memory.content m1))
      = spec_matchRatio (tokens q) (tokens (Memory.content m2)) \<and>
    0 < spec_matchRatio (tokens q) (tokens (Memory.content m2)) \<and>
    Memory.importance m2 < Memory.importance m1
    \<longrightarrow> spec_score q m2 < spec_score q m1) \<and>
   (\<forall>j < length (search b input). \<forall>m \<in> set (memories b).
      (\<forall>ts. RecallInput.types input = Some ts \<and> ts \<noteq> [] \<longrightarrow> Memory.type m \<in> set ts) \<and>
      spec_matchRatio (tokens (query input)) (tokens (Memory.content m))
        = spec_matchRatio (tokens (query input))
            (tokens (Memory.content (memory (search b input ! j)))) \<and>
      0 < spec_matchRatio (tokens (query input)) (tokens (Memory.content m)) \<and>
      Memory.importance (memory (search b input ! j)) < Memory.importance m
      \<longrightarrow> (\<exists>i<j. search b input ! i = \<lparr> memory = m, score = spec_score (query input) m \<rparr>)) \<and>
   (\<forall>j < length (recall b rinput). \<forall>m \<in> set (memories b).
      (\<forall>ts. RecallInput.types rinput = Some ts \<and> ts \<noteq> [] \<longrightarrow> Memory.type m \<in> set ts) \<and>
      spec_matchRatio (tokens (query rinput)) (tokens (Memory.content m))
        = spec_matchRatio (tokens (query rinput))
            (tokens (Memory.content (memory (recall b rinput ! j)))) \<and>
      0 < spec_matchRatio (tokens (query rinput)) (tokens (Memory.content m)) \<and>
      Memory.importance (memory (recall b rinput ! j)) < Memory.importance m
      \<longrightarrow> (\<exists>i<j. recall b rinput ! i = \<lparr> memory = m, score = spec_score (query rinput) m \<rparr>))"
proof (intro conjI allI ballI impI)
  show "sorted_wrt (\<lambda>r s. score s \<le> score r) (search b input)"
    unfolding search_searchMemories by (rule searchMemories_sorted)
  show "sorted_wrt (\<lambda>r s. score s \<le> score r) (recall b rinput)"
    unfolding recall_searchMemories by (rule searchMemories_sorted)
next
  assume "spec_matchRatio (tokens q) (tokens (Memory.content m1))
      = spec_matchRatio (tokens q) (tokens (Memory.content m2)) \<and>
    0 < spec_matchRatio (tokens q) (tokens (Memory.content m2)) \<and>
    Memory.importance m2 < Memory.importance m1"
  then show "spec_score q m2 < spec_score q m1"
    by (intro spec_score_mono) simp_all
next
  fix j m
  assume "j < length (search b input)" "m \<in> set (memories b)"
    and "(\<forall>ts. RecallInput.types input = Some ts \<and> ts \<noteq> [] \<longrightarrow> Memory.type m \<in> set ts) \<and>
      spec_matchRatio (tokens (query input)) (tokens (Memory.content m))
        = spec_matchRatio (tokens (query input))
            (tokens (Memory.content (memory (search b input ! j)))) \<and>
      0 < spec_matchRatio (tokens (query input)) (tokens (Memory.content m)) \<and>
      Memory.importance (memory (search b input ! j)) < Memory.importance m"
  then show "\<exists>i<j. search b input ! i = \<lparr> memory = m, score = spec_score (query input) m \<rparr>"
    unfolding search_searchMemories
    by (intro searchMemories_rank_importance) (simp_all add: search_options_def)
next
  fix j m
  assume "j < length (recall b rinput)" "m \<in> set (memories b)"
    and "(\<forall>ts. RecallInput.types rinput = Some ts \<and> ts \<noteq> [] \<longrightarrow> Memory.type m \<in> set ts) \<and>
      spec_matchRatio (tokens (query rinput)) (tokens (Memory.content m))
        = spec_matchRatio (tokens (query rinput))
            (tokens (Memory.content (memory (recall b rinput ! j)))) \<and>
      0 < spec_matchRatio (tokens (query rinput)) (tokens (Memory.content m)) \<and>
      Memory.importance (memory (recall b rinput ! j)) < Memory.importance m"
  then show "\<exists>i<j. recall b rinput ! i = \<lparr> memory = m, score = spec_score (query rinput) m \<rparr>"
    unfolding recall_searchMemories
    by (intro searchMemories_rank_importance) (simp_all add: recall_options_def)
qed

lemma example_ratio_high:
  "spec_matchRatio (tokens ''Dark Mode'') (tokens (Memory.content example_high)) = 1"
  unfolding example_high_def by code_simp

lemma example_ratio_low:
  "spec_matchRatio (tokens ''Dark Mode'') (tokens (Memory.content example_low)) = 1"
  unfolding example_low_def by code_simp

theorem ranking_by_score_witness:
  "memory (recall example_backend4 example_recall_input ! 2) = example_low \<and>
   Memory.importance example_low = 2/10 \<and>
   Memory.importance example_high = 9/10 \<and>
   spec_score ''Dark Mode'' example_low < spec_score ''Dark Mode'' example_high \<and>
   (\<exists>i<2. recall example_backend4 example_recall_input ! i
     = \<lparr> memory = example_high, score = spec_score ''Dark Mode'' example_high \<rparr>) \<and>
   recall example_backend4 example_recall_input ! 0
     = \<lparr> memory = example_high, score = spec_score ''Dark Mode'' example_high \<rparr>"
proof -
  note inst = ranking_by_score [of example_backend4 example_search_input example_recall_input
      "''Dark Mode''" example_high example_low]
  have lt: "spec_score ''Dark Mode'' example_low < spec_score ''Dark Mode'' example_high"
    using inst [THEN conjunct2, THEN conjunct2, THEN conjunct1]
    by (simp add: example_ratio_high example_ratio_low) (simp add: example_high_def example_low_def)
  have nth2: "recall example_backend4 example_recall_input ! 2 = \<lparr> memory = example_low, score = 3/5 \<rparr>"
    by (simp add: example_recall4)
  have nth0: "recall example_backend4 example_recall_input ! 0 = \<lparr> memory = example_high, score = 19/20 \<rparr>"
    by (simp add: example_recall4)
  have sc: "spec_score ''Dark Mode'' example_high = 19/20"
    unfolding example_high_def by code_simp
  have q: "query example_recall_input = ''Dark Mode''"
    "RecallInput.types example_recall_input = None"
    by (simp_all add: example_recall_input_def)
  have p1: "2 < length (recall example_backend4 example_recall_input)"
    by (simp add: example_recall4)
  have p2: "example_high \<in> set (memories example_backend4)"
    by (simp add: example_backend4_def)
  have p3: "(\<forall>ts. RecallInput.types example_recall_input = Some ts \<and> ts \<noteq> []
               \<longrightarrow> Memory.type example_high \<in> set ts) \<and>
      spec_matchRatio (tokens (query example_recall_input)) (tokens (Memory.content example_high))
        = spec_matchRatio (tokens (query example_recall_input))
            (tokens (Memory.content (memory (recall example_backend4 example_recall_input ! 2)))) \<and>
      0 < spec_matchRatio (tokens (query example_recall_input))
            (tokens (Memory.content example_high)) \<and>
      Memory.importance (memory (recall example_backend4 example_recall_input ! 2))
        < Memory.importance example_high"
    by (simp add: nth2 q example_ratio_high example_ratio_low)
       (simp add: example_high_def example_low_def)
  have before: "\<exists>i<2. recall example_backend4 example_recall_input ! i
      = \<lparr> memory = example_high, score = spec_score ''Dark Mode'' example_high \<rparr>"
    using inst [THEN conjunct2, THEN conjunct2, THEN conjunct2, THEN conjunct2, rule_format,
        OF p1 p2 p3]
    by (simp add: q)
  show ?thesis using lt nth2 nth0 sc before by (simp add: example_high_def example_low_def)
qed

section \<open>Storing, deleting and looking up records\<close>

lemma findIndex_ge: "- 1 \<le> findIndex P xs"
  by (induction xs) (auto simp: Let_def)

lemma findIndex_none: "findIndex P xs = - 1 \<longleftrightarrow> (\<forall>x \<in> set xs. \<not> P x)"
proof (induction xs)
  case Nil
  show ?case by simp
next
  case (Cons a xs)
  then show ?case using findIndex_ge [of P xs] by (auto simp: Let_def)
qed

lemma findIndex_append_last:
  "\<forall>x \<in> set xs. \<not> P x \<Longrightarrow> P y \<Longrightarrow> findIndex P (xs @ [y]) = int (length xs)"
  by (induction xs) (auto simp: Let_def)

lemma splice1_append_last: "splice1 (xs @ [y]) (length xs) = xs"
  by (simp add: splice1_def)

lemma find_append_last:
  "\<forall>x \<in> set xs. \<not> P x \<Longrightarrow> P y \<Longrightarrow> List.find P (xs @ [y]) = Some y"
  by (induction xs) auto

lemma save_ok:
  "save b fs = Inr fs1 \<longleftrightarrow>
     (storagePath b \<notin> dirs fs \<and> dirname (storagePath b) \<in> dirs fs \<and>
      fs1 = fs\<lparr>files := (files fs)(storagePath b \<mapsto>
               JSON_stringify \<lparr> StorageData.memories = memories b, version = 1 \<rparr>)\<rparr>)"
  by (auto simp: save_def writeFileSync_def)

lemma save_again:
  "save b fs = Inr fs1 \<Longrightarrow> storagePath b' = storagePath b \<Longrightarrow>
   \<exists>fs2. save b' fs1 = Inr fs2 \<and> dirs fs2 = dirs fs \<and>
     files fs2 = (files fs)(storagePath b \<mapsto>
        JSON_stringify \<lparr> StorageData.memories = memories b', version = 1 \<rparr>)"
  by (auto simp: save_ok)

lemma remember_ok:
  "remember b fs uuid now input = (Inr m, b1, fs1) \<longleftrightarrow>
     (m = \<lparr> id_m = uuid, content = RememberInput.content input,
            type = (case RememberInput.type input of Some t \<Rightarrow> t | None \<Rightarrow> Fact),
            importance = (case RememberInput.importance input of Some i \<Rightarrow> i | None \<Rightarrow> 1/2),
            createdAt = now, updatedAt = now, metadata = RememberInput.metadata input \<rparr> \<and>
      b1 = b\<lparr>memories := memories b @ [m]\<rparr> \<and>
      save b1 fs = Inr fs1)"
  by (auto simp: remember_def Let_def split: sum.splits)

lemma forget_absent:
  "memoryId input \<notin> id_m ` set (memories b) \<Longrightarrow> forget b fs input = (Inr False, b, fs)"
proof -
  assume "memoryId input \<notin> id_m ` set (memories b)"
  then have "findIndex (\<lambda>m. id_m m = memoryId input) (memories b) = - 1"
    unfolding findIndex_none by (metis imageI)
  then show ?thesis by (simp add: forget_def)
qed

lemma forget_after_remember:
  assumes fresh: "uuid \<notin> id_m ` set (memories b)"
    and rem: "remember b fs uuid now rinput = (Inr m, b1, fs1)"
  shows "\<exists>fs2. forget b1 fs1 \<lparr> memoryId = uuid, reason = rsn \<rparr> = (Inr True, b, fs2) \<and>
           files fs2 (storagePath b)
             = Some (JSON_stringify \<lparr> StorageData.memories = memories b, version = 1 \<rparr>)"
proof -
  from rem have m: "id_m m = uuid" and b1: "b1 = b\<lparr>memories := memories b @ [m]\<rparr>"
    and sv: "save b1 fs = Inr fs1"
    by (auto simp: remember_ok)
  have idx: "findIndex (\<lambda>x. id_m x = uuid) (memories b1) = int (length (memories b))"
  proof -
    have "\<forall>x \<in> set (memories b). \<not> id_m x = uuid"
      using fresh by (metis imageI)
    then show ?thesis
      unfolding b1 using m by (simp add: findIndex_append_last)
  qed
  have undo: "b1\<lparr>memories := splice1 (memories b1) (length (memories b))\<rparr> = b"
    unfolding b1 by (simp add: splice1_append_last)
  obtain fs2 where "save b fs1 = Inr fs2" 
    "files fs2 = (files fs)(storagePath b1 \<mapsto>
        JSON_stringify \<lparr> StorageData.memories = memories b, version = 1 \<rparr>)"
    using save_again [OF sv, of b] b1 by auto
  then show ?thesis
    using idx undo b1 by (simp add: forget_def Let_def)
qed

lemma example_remember:
  "remember example_backend example_fs ''m-9'' 5000 example_input
     = (Inr example_tea,
        example_backend\<lparr>memories := [example_light, example_dark, example_tea]\<rparr>,
        example_fs\<lparr>files := (files example_fs)([''home'', ''memories.json''] \<mapsto>
           JSON_stringify \<lparr> StorageData.memories = [example_light, example_dark, example_tea],
                            version = 1 \<rparr>)\<rparr>)"
  by (simp add: remember_ok save_ok example_backend_def example_fs_def example_input_def
      example_tea_def dirname_def)

lemma example_fresh: "''m-9'' \<notin> id_m ` set (memories example_backend)"
  by (simp add: example_backend_def example_light_def example_dark_def)

text \<open>
  Claim C5. Forgetting an identifier that no stored record has returns false and leaves
  the backend and the file system as they were. After a successful remember that was
  given a fresh identifier, forgetting that identifier returns true and leaves exactly the
  records that were there before the remember; forgetting it once more returns false.
\<close>

theorem forget_behaviour:
  "(memoryId input \<notin> id_m ` set (memories b) \<longrightarrow> forget b fs input = (Inr False, b, fs)) \<and>
   (uuid \<notin> id_m ` set (memories b) \<and> remember b fs uuid now rinput = (Inr m, b1, fs1) \<longrightarrow>
      id_m m = uuid \<and> memories b1 = memories b @ [m] \<and>
      (\<exists>b2 fs2. forget b1 fs1 \<lparr> memoryId = uuid, reason = rsn \<rparr> = (Inr True, b2, fs2) \<and>
         memories b2 = memories b \<and>
         forget b2 fs2 \<lparr> memoryId = uuid, reason = rsn' \<rparr> = (Inr False, b2, fs2)))"
proof (intro conjI impI)
  assume "memoryId input \<notin> id_m ` set (memories b)"
  then show "forget b fs input = (Inr False, b, fs)" by (rule forget_absent)
next
  assume a: "uuid \<notin> id_m ` set (memories b) \<and> remember b fs uuid now rinput = (Inr m, b1, fs1)"
  then show "id_m m = uuid" "memories b1 = memories b @ [m]"
    by (auto simp: remember_ok)
  from a obtain fs2 where f: "forget b1 fs1 \<lparr> memoryId = uuid, reason = rsn \<rparr> = (Inr True, b, fs2)"
    using forget_after_remember by blast
  from a have "forget b fs2 \<lparr> memoryId = uuid, reason = rsn' \<rparr> = (Inr False, b, fs2)"
    by (intro forget_absent) simp
  with f show "\<exists>b2 fs2. forget b1 fs1 \<lparr> memoryId = uuid, reason = rsn \<rparr> = (Inr True, b2, fs2) \<and>
         memories b2 = memories b \<and>
         forget b2 fs2 \<lparr> memoryId = uuid, reason = rsn' \<rparr> = (Inr False, b2, fs2)"
    by blast
qed

theorem forget_behaviour_witness:
  "forget example_backend example_fs \<lparr> memoryId = ''m-9'', reason = None \<rparr>
     = (Inr False, example_backend, example_fs) \<and>
   id_m example_tea = ''m-9'' \<and>
   (\<exists>b2 fs2.
      forget (example_backend\<lparr>memories := [example_light, example_dark, example_tea]\<rparr>)
        (example_fs\<lparr>files := (files example_fs)([''home'', ''memories.json''] \<mapsto>
           JSON_stringify \<lparr> StorageData.memories = [example_light, example_dark, example_tea],
                            version = 1 \<rparr>)\<rparr>)
        \<lparr> memoryId = ''m-9'', reason = None \<rparr> = (Inr True, b2, fs2) \<and>
      memories b2 = [example_light, example_dark] \<and>
      forget b2 fs2 \<lparr> memoryId = ''m-9'', reason = None \<rparr> = (Inr False, b2, fs2))"
proof -
  note inst = forget_behaviour [of "\<lparr> memoryId = ''m-9'', reason = None \<rparr>" example_backend
      example_fs "''m-9''" 5000 example_input example_tea
      "example_backend\<lparr>memories := [example_light, example_dark, example_tea]\<rparr>" _ None None]
  have 1: "forget example_backend example_fs \<lparr> memoryId = ''m-9'', reason = None \<rparr>
     = (Inr False, example_backend, example_fs)"
    using inst [THEN conjunct1] example_fresh by simp
  have 2: "memories example_backend = [example_light, example_dark]"
    by (simp add: example_backend_def)
  show ?thesis
    using 1 inst [THEN conjunct2, rule_format, OF conjI [OF example_fresh example_remember]]
    by (simp add: 2)
qed

lemma remember_succeeds:
  assumes "storagePath b \<notin> dirs fs" "dirname (storagePath b) \<in> dirs fs"
  shows "\<exists>m b1 fs1. remember b fs uuid now input = (Inr m, b1, fs1)"
  using assms by (simp add: remember_ok save_ok)

lemma get_after_remember:
  assumes fresh: "uuid \<notin> id_m ` set (memories b)"
    and rem: "remember b fs uuid now input = (Inr m, b1, fs1)"
  shows "get b1 (id_m m) = Some m"
proof -
  from rem have m: "id_m m = uuid" and b1: "memories b1 = memories b @ [m]"
    by (auto simp: remember_ok)
  have "\<forall>x \<in> set (memories b). \<not> id_m x = uuid"
    using fresh by (metis imageI)
  then show ?thesis
    unfolding get_def b1 using m by (simp add: find_append_last)
qed

text \<open>
  Claim C6. Remember succeeds whenever the store file can be written. When it succeeds
  with a fresh identifier, the record it returns has the content of the input, that
  identifier, the type of the input or \<open>Fact\<close> when none is given, and the importance
  of the input or \<open>0.5\<close> when none is given; a get on the identifier then returns this
  very record.
\<close>

theorem remember_get_roundtrip:
  "(storagePath b \<notin> dirs fs \<and> dirname (storagePath b) \<in> dirs fs \<longrightarrow>
      (\<exists>m b1 fs1. remember b fs uuid now input = (Inr m, b1, fs1))) \<and>
   (uuid \<notin> id_m ` set (memories b) \<and> remember b fs uuid now input = (Inr m, b1, fs1) \<longrightarrow>
      Memory.content m = RememberInput.content input \<and>
      id_m m = uuid \<and>
      Memory.type m = (case RememberInput.type input of Some t \<Rightarrow> t | None \<Rightarrow> Fact) \<and>
      Memory.importance m
        = (case RememberInput.importance input of Some i \<Rightarrow> i | None \<Rightarrow> 1/2) \<and>
      get b1 (id_m m) = Some m)"
proof (intro conjI impI)
  assume "storagePath b \<notin> dirs fs \<and> dirname (storagePath b) \<in> dirs fs"
  then show "\<exists>m b1 fs1. remember b fs uuid now input = (Inr m, b1, fs1)"
    using remember_succeeds by blast
next
  assume a: "uuid \<notin> id_m ` set (memories b) \<and> remember b fs uuid now input = (Inr m, b1, fs1)"
  then show "Memory.content m = RememberInput.content input" "id_m m = uuid"
    "Memory.type m = (case RememberInput.type input of Some t \<Rightarrow> t | None \<Rightarrow> Fact)"
    "Memory.importance m = (case RememberInput.importance input of Some i \<Rightarrow> i | None \<Rightarrow> 1/2)"
    by (auto simp: remember_ok)
  from a show "get b1 (id_m m) = Some m"
    using get_after_remember by blast
qed

theorem remember_get_roundtrip_witness:
  "(\<exists>m b1 fs1. remember example_backend example_fs ''m-9'' 5000 example_input = (Inr m, b1, fs1)) \<and>
   Memory.content example_tea = ''likes tea'' \<and>
   Memory.type example_tea = Fact \<and>
   Memory.importance example_tea = 1/2 \<and>
   get (example_backend\<lparr>memories := [example_light, example_dark, example_tea]\<rparr>) ''m-9''
     = Some example_tea"
proof -
  note inst = remember_get_roundtrip [of example_backend example_fs "''m-9''" 5000 example_input
      example_tea "example_backend\<lparr>memories := [example_light, example_dark, example_tea]\<rparr>"]
  have w: "storagePath example_backend \<notin> dirs example_fs \<and>
           dirname (storagePath example_backend) \<in> dirs example_fs"
    by (simp add: example_backend_def example_fs_def dirname_def)
  have 1: "\<exists>m b1 fs1. remember example_backend example_fs ''m-9'' 5000 example_input = (Inr m, b1, fs1)"
    using inst [THEN conjunct1, rule_format, OF w] .
  have 2: "Memory.content example_tea = RememberInput.content example_input \<and>
      id_m example_tea = ''m-9'' \<and>
      Memory.type example_tea = (case RememberInput.type example_input of Some t \<Rightarrow> t | None \<Rightarrow> Fact) \<and>
      Memory.importance example_tea
        = (case RememberInput.importance example_input of Some i \<Rightarrow> i | None \<Rightarrow> 1/2) \<and>
      get (example_backend\<lparr>memories := [example_light, example_dark, example_tea]\<rparr>) (id_m example_tea) = Some example_tea"
    using inst [THEN conjunct2, rule_format, OF conjI [OF example_fresh example_remember]] .
  show ?thesis using 1 2 by (simp add: example_input_def example_tea_def)
qed

section \<open>Listing\<close>

lemma slice_nonneg:
  "0 \<le> off \<Longrightarrow> 0 \<le> lmt \<Longrightarrow> slice xs off (off + lmt) = take (nat lmt) (drop (nat off) xs)"
  by (auto simp: slice_def Let_def min_def)

lemma sort_desc_sorted:
  "sorted_wrt (\<lambda>a c. updatedAt c \<le> updatedAt a) (sort_key (\<lambda>m. - updatedAt m) xs)"
proof -
  have "sorted (map (\<lambda>m. - updatedAt m) (sort_key (\<lambda>m. - updatedAt m) xs))"
    by (rule sorted_sort_key)
  then show ?thesis by (simp add: sorted_map)
qed

lemma list_m_fst:
  "fst (list_m b lmt off) =
     slice (sort_key (\<lambda>m. - updatedAt m) (memories b))
       (case off of Some k \<Rightarrow> k | None \<Rightarrow> 0)
       ((case off of Some k \<Rightarrow> k | None \<Rightarrow> 0) + (case lmt of Some l \<Rightarrow> l | None \<Rightarrow> 20))"
  by (simp add: list_m_def Let_def)

lemma list_m_snd:
  "snd (list_m b lmt off) = b\<lparr>memories := sort_key (\<lambda>m. - updatedAt m) (memories b)\<rparr>"
  by (simp add: list_m_def Let_def)

lemma list_m_nonneg:
  "0 \<le> lmt \<Longrightarrow> 0 \<le> off \<Longrightarrow>
   fst (list_m b (Some lmt) (Some off))
     = take (nat lmt) (drop (nat off) (sort_key (\<lambda>m. - updatedAt m) (memories b)))"
  by (simp add: list_m_fst slice_nonneg)

lemma list_m_default:
  "fst (list_m b None None) = take 20 (sort_key (\<lambda>m. - updatedAt m) (memories b))"
  using slice_nonneg [of 0 20 "sort_key (\<lambda>m. - updatedAt m) (memories b)"]
  by (simp add: list_m_fst)

lemma take2_drop1: "3 \<le> length xs \<Longrightarrow> take 2 (drop 1 xs) = [xs ! 1, xs ! 2]"
proof -
  assume "3 \<le> length xs"
  then obtain a b c ys where "xs = a # b # c # ys"
    by (metis Suc_le_length_iff numeral_3_eq_3)
  then show ?thesis by (simp add: numeral_2_eq_2)
qed

text \<open>
  Claim C8. There is an arrangement \<open>S\<close> of the stored records by falling
  \<^verbatim>\<open>updatedAt\<close> such that, for a limit and an offset that are not negative,
  \<^verbatim>\<open>list(limit, offset)\<close> returns \<open>S\<close> without its first \<open>offset\<close> records, cut
  to at most \<open>limit\<close> records; without arguments it returns the first \<open>20\<close>; and
  \<^verbatim>\<open>list(2, 1)\<close> returns the second and the third record of \<open>S\<close>.
\<close>

theorem list_pagination:
  "\<exists>S. mset S = mset (memories b) \<and>
       sorted_wrt (\<lambda>a c. updatedAt c \<le> updatedAt a) S \<and>
       (\<forall>lmt off. 0 \<le> lmt \<and> 0 \<le> off \<longrightarrow>
          fst (list_m b (Some lmt) (Some off)) = take (nat lmt) (drop (nat off) S)) \<and>
       fst (list_m b None None) = take 20 S \<and>
       (3 \<le> length S \<longrightarrow> fst (list_m b (Some 2) (Some 1)) = [S ! 1, S ! 2])"
proof (intro exI [of _ "sort_key (\<lambda>m. - updatedAt m) (memories b)"] conjI allI impI)
  show "mset (sort_key (\<lambda>m. - updatedAt m) (memories b)) = mset (memories b)"
    by simp
  show "sorted_wrt (\<lambda>a c. updatedAt c \<le> updatedAt a) (sort_key (\<lambda>m. - updatedAt m) (memories b))"
    by (rule sort_desc_sorted)
  show "fst (list_m b None None) = take 20 (sort_key (\<lambda>m. - updatedAt m) (memories b))"
    by (rule list_m_default)
next
  fix lmt off :: int
  assume "0 \<le> lmt \<and> 0 \<le> off"
  then show "fst (list_m b (Some lmt) (Some off))
      = take (nat lmt) (drop (nat off) (sort_key (\<lambda>m. - updatedAt m) (memories b)))"
    by (simp add: list_m_nonneg)
next
  assume "3 \<le> length (sort_key (\<lambda>m. - updatedAt m) (memories b))"
  then show "fst (list_m b (Some 2) (Some 1))
      = [sort_key (\<lambda>m. - updatedAt m) (memories b) ! 1,
         sort_key (\<lambda>m. - updatedAt m) (memories b) ! 2]"
    using take2_drop1 [of "sort_key (\<lambda>m. - updatedAt m) (memories b)"]
    by (simp add: list_m_nonneg)
qed

lemma example_list:
  "list_m example_backend4 (Some 2) (Some 1)
     = ([example_low, example_light],
        example_backend4\<lparr>memories := [example_high, example_low, example_light, example_dark]\<rparr>)"
  by (simp add: list_m_def slice_def example_backend4_def example_low_def example_light_def
      example_high_def example_dark_def)

theorem list_pagination_witness:
  "fst (list_m example_backend4 (Some 2) (Some 1)) = [example_low, example_light] \<and>
   (\<exists>S. mset S = mset [example_low, example_light, example_high, example_dark] \<and>
        fst (list_m example_backend4 (Some 2) (Some 1)) = take 2 (drop 1 S) \<and>
        fst (list_m example_backend4 (Some 2) (Some 1)) = [S ! 1, S ! 2])"
proof -
  obtain S where S: "mset S = mset (memories example_backend4)"
    and t: "\<forall>lmt off. 0 \<le> lmt \<and> 0 \<le> off \<longrightarrow>
          fst (list_m example_backend4 (Some lmt) (Some off)) = take (nat lmt) (drop (nat off) S)"
    and p: "3 \<le> length S \<longrightarrow> fst (list_m example_backend4 (Some 2) (Some 1)) = [S ! 1, S ! 2]"
    using list_pagination [of example_backend4] by blast
  have m: "memories example_backend4 = [example_low, example_light, example_high, example_dark]"
    by (simp add: example_backend4_def)
  have "length S = 4"
    using S mset_eq_length [of S "memories example_backend4"] by (simp add: m)
  with p have 1: "fst (list_m example_backend4 (Some 2) (Some 1)) = [S ! 1, S ! 2]"
    by simp
  have 2: "fst (list_m example_backend4 (Some 2) (Some 1)) = take 2 (drop 1 S)"
    using t [rule_format, of 2 1] by simp
  from S 1 2 show ?thesis
    unfolding m by (metis example_list fst_conv)
qed

section \<open>Persistence\<close>

lemma initialize_after_save:
  assumes sv: "save b1 fs = Inr fs1"
  shows "initialize (new_LocalBackend home
            \<lparr> LocalConfig.storagePath = Some (storagePath b1), debug = dbg \<rparr>) fs1
         = (Inr (),
            \<lparr> storagePath = storagePath b1, memories = memories b1,
              debug = (case dbg of Some d \<Rightarrow> d | None \<Rightarrow> False), ready = True \<rparr>,
            fs1)"
  using sv
  by (auto simp: save_ok initialize_def new_LocalBackend_def existsSync_def readFileSync_def
      JSON_parse_def JSON_stringify_def Let_def)

lemma forget_ok:
  "forget b fs input = (Inr True, b1, fs1) \<Longrightarrow>
     storagePath b1 = storagePath b \<and> save b1 fs = Inr fs1"
  by (auto simp: forget_def Let_def split: if_splits sum.splits)

lemma save_file:
  "save b fs = Inr fs1 \<Longrightarrow>
     files fs1 (storagePath b)
       = Some (JSON_stringify \<lparr> StorageData.memories = memories b, version = 1 \<rparr>)"
  by (auto simp: save_ok)

lemma in_list_default:
  assumes "m \<in> set (memories b)" "length (memories b) \<le> 20"
  shows "m \<in> set (fst (list_m b None None))"
  using assms by (simp add: list_m_default)

text \<open>
  Claim C7. A remember that succeeds has appended the record and written the whole
  sequence of records to the store file, and a forget that removed a record has written
  the remaining sequence. After such a remember, initializing a new backend on the same
  storage path succeeds and loads exactly the saved sequence, so that its \<^verbatim>\<open>list\<close>
  returns what the first backend's would, and \<^verbatim>\<open>list()\<close> holds the new record
  when the store has at most \<open>20\<close> records.
\<close>

theorem persistence_roundtrip:
  "(remember b fs uuid now input = (Inr m, b1, fs1) \<longrightarrow>
      memories b1 = memories b @ [m] \<and>
      files fs1 (storagePath b1)
        = Some (JSON_stringify \<lparr> StorageData.memories = memories b1, version = 1 \<rparr>) \<and>
      (\<exists>b2. initialize (new_LocalBackend home
                 \<lparr> LocalConfig.storagePath = Some (storagePath b1), debug = dbg \<rparr>) fs1
               = (Inr (), b2, fs1) \<and>
            isReady b2 \<and>
            memories b2 = memories b1 \<and>
            fst (list_m b2 lmt off) = fst (list_m b1 lmt off) \<and>
            (length (memories b1) \<le> 20 \<longrightarrow> m \<in> set (fst (list_m b2 None None))))) \<and>
   (forget b fs finput = (Inr True, b1, fs1) \<longrightarrow>
      files fs1 (storagePath b1)
        = Some (JSON_stringify \<lparr> StorageData.memories = memories b1, version = 1 \<rparr>))"
proof (intro conjI impI)
  assume r: "remember b fs uuid now input = (Inr m, b1, fs1)"
  then have sv: "save b1 fs = Inr fs1" and ms: "memories b1 = memories b @ [m]"
    by (auto simp: remember_ok)
  show "memories b1 = memories b @ [m]" by (rule ms)
  show "files fs1 (storagePath b1)
        = Some (JSON_stringify \<lparr> StorageData.memories = memories b1, version = 1 \<rparr>)"
    using sv by (rule save_file)
  let ?b2 = "\<lparr> storagePath = storagePath b1, memories = memories b1,
              debug = (case dbg of Some d \<Rightarrow> d | None \<Rightarrow> False), ready = True \<rparr>"
  have "initialize (new_LocalBackend home
                 \<lparr> LocalConfig.storagePath = Some (storagePath b1), debug = dbg \<rparr>) fs1
               = (Inr (), ?b2, fs1)"
    using sv by (rule initialize_after_save)
  moreover have "isReady ?b2" "memories ?b2 = memories b1"
    by (simp_all add: isReady_def)
  moreover have "fst (list_m ?b2 lmt off) = fst (list_m b1 lmt off)"
    by (simp add: list_m_fst)
  moreover have "length (memories b1) \<le> 20 \<longrightarrow> m \<in> set (fst (list_m ?b2 None None))"
    using ms by (simp add: in_list_default)
  ultimately show "\<exists>b2. initialize (new_LocalBackend home
                 \<lparr> LocalConfig.storagePath = Some (storagePath b1), debug = dbg \<rparr>) fs1
               = (Inr (), b2, fs1) \<and>
            isReady b2 \<and>
            memories b2 = memories b1 \<and>
            fst (list_m b2 lmt off) = fst (list_m b1 lmt off) \<and>
            (length (memories b1) \<le> 20 \<longrightarrow> m \<in> set (fst (list_m b2 None None)))"
    by blast
next
  assume "forget b fs finput = (Inr True, b1, fs1)"
  then have "save b1 fs = Inr fs1" by (simp add: forget_ok)
  then show "files fs1 (storagePath b1)
        = Some (JSON_stringify \<lparr> StorageData.memories = memories b1, version = 1 \<rparr>)"
    by (rule save_file)
qed

lemma example_forget:
  "forget example_backend example_fs \<lparr> memoryId = ''m-2'', reason = None \<rparr>
     = (Inr True,
        example_backend\<lparr>memories := [example_dark]\<rparr>,
        example_fs\<lparr>files := (files example_fs)([''home'', ''memories.json''] \<mapsto>
           JSON_stringify \<lparr> StorageData.memories = [example_dark], version = 1 \<rparr>)\<rparr>)"
  by (simp add: forget_def save_def writeFileSync_def splice1_def example_backend_def
      example_fs_def example_light_def example_dark_def dirname_def)

theorem persistence_roundtrip_witness:
  "(\<exists>b2. initialize (new_LocalBackend [''home'']
             \<lparr> LocalConfig.storagePath = Some [''home'', ''memories.json''], debug = None \<rparr>)
           (example_fs\<lparr>files := (files example_fs)([''home'', ''memories.json''] \<mapsto>
              JSON_stringify \<lparr> StorageData.memories = [example_light, example_dark, example_tea],
                               version = 1 \<rparr>)\<rparr>)
         = (Inr (), b2,
            example_fs\<lparr>files := (files example_fs)([''home'', ''memories.json''] \<mapsto>
              JSON_stringify \<lparr> StorageData.memories = [example_light, example_dark, example_tea],
                               version = 1 \<rparr>)\<rparr>) \<and>
        memories b2 = [example_light, example_dark, example_tea] \<and>
        example_tea \<in> set (fst (list_m b2 None None))) \<and>
   files (example_fs\<lparr>files := (files example_fs)([''home'', ''memories.json''] \<mapsto>
            JSON_stringify \<lparr> StorageData.memories = [example_dark], version = 1 \<rparr>)\<rparr>)
     [''home'', ''memories.json'']
     = Some (JSON_stringify \<lparr> StorageData.memories = [example_dark], version = 1 \<rparr>)"
proof -
  have 1: "\<exists>b2. initialize (new_LocalBackend [''home'']
             \<lparr> LocalConfig.storagePath = Some [''home'', ''memories.json''], debug = None \<rparr>)
           (example_fs\<lparr>files := (files example_fs)([''home'', ''memories.json''] \<mapsto>
              JSON_stringify \<lparr> StorageData.memories = [example_light, example_dark, example_tea],
                               version = 1 \<rparr>)\<rparr>)
         = (Inr (), b2,
            example_fs\<lparr>files := (files example_fs)([''home'', ''memories.json''] \<mapsto>
              JSON_stringify \<lparr> StorageData.memories = [example_light, example_dark, example_tea],
                               version = 1 \<rparr>)\<rparr>) \<and>
        memories b2 = [example_light, example_dark, example_tea] \<and>
        example_tea \<in> set (fst (list_m b2 None None))"
    using persistence_roundtrip [THEN conjunct1, rule_format, OF example_remember,
        of "[''home'']" None None None]
    by (auto simp: example_backend_def)
  have 2: "files (example_fs\<lparr>files := (files example_fs)([''home'', ''memories.json''] \<mapsto>
            JSON_stringify \<lparr> StorageData.memories = [example_dark], version = 1 \<rparr>)\<rparr>)
     [''home'', ''memories.json'']
     = Some (JSON_stringify \<lparr> StorageData.memories = [example_dark], version = 1 \<rparr>)"
    using persistence_roundtrip [THEN conjunct2, rule_format, OF example_forget]
    by (simp add: example_backend_def)
  from 1 2 show ?thesis by blast
qed

text \<open>
  Claim C10. A call of \<^verbatim>\<open>list\<close> leaves the records of the backend sorted by falling
  \<^verbatim>\<open>updatedAt\<close>: the same records, as a multiset, in the sorted order. A remember
  that follows appends to the sorted sequence and writes that sequence to the store file.
\<close>

theorem list_sorts_in_place:
  "memories (snd (list_m b lmt off)) = sort_key (\<lambda>m. - updatedAt m) (memories b) \<and>
   mset (memories (snd (list_m b lmt off))) = mset (memories b) \<and>
   sorted_wrt (\<lambda>a c. updatedAt c \<le> updatedAt a) (memories (snd (list_m b lmt off))) \<and>
   storagePath (snd (list_m b lmt off)) = storagePath b \<and>
   (remember (snd (list_m b lmt off)) fs uuid now input = (Inr m, b1, fs1) \<longrightarrow>
      memories b1 = sort_key (\<lambda>m. - updatedAt m) (memories b) @ [m] \<and>
      files fs1 (storagePath b)
        = Some (JSON_stringify
            \<lparr> StorageData.memories = sort_key (\<lambda>m. - updatedAt m) (memories b) @ [m],
              version = 1 \<rparr>))"
proof (intro conjI impI)
  show "memories (snd (list_m b lmt off)) = sort_key (\<lambda>m. - updatedAt m) (memories b)"
    "storagePath (snd (list_m b lmt off)) = storagePath b"
    by (simp_all add: list_m_snd)
  show "mset (memories (snd (list_m b lmt off))) = mset (memories b)"
    by (simp add: list_m_snd)
  show "sorted_wrt (\<lambda>a c. updatedAt c \<le> updatedAt a) (memories (snd (list_m b lmt off)))"
    by (simp add: list_m_snd sort_desc_sorted)
next
  assume r: "remember (snd (list_m b lmt off)) fs uuid now input = (Inr m, b1, fs1)"
  then have sv: "save b1 fs = Inr fs1"
    and ms: "memories b1 = sort_key (\<lambda>m. - updatedAt m) (memories b) @ [m]"
    and sp: "storagePath b1 = storagePath b"
    by (auto simp: remember_ok list_m_snd)
  show "memories b1 = sort_key (\<lambda>m. - updatedAt m) (memories b) @ [m]" by (rule ms)
  show "files fs1 (storagePath b)
        = Some (JSON_stringify
            \<lparr> StorageData.memories = sort_key (\<lambda>m. - updatedAt m) (memories b) @ [m],
              version = 1 \<rparr>)"
    using save_file [OF sv] by (simp add: ms sp)
qed

lemma example_remember_sorted:
  "remember (snd (list_m example_backend4 (Some 2) (Some 1))) example_fs ''m-9'' 5000 example_input
     = (Inr example_tea,
        example_backend4\<lparr>memories :=
          [example_high, example_low, example_light, example_dark, example_tea]\<rparr>,
        example_fs\<lparr>files := (files example_fs)([''home'', ''memories.json''] \<mapsto>
           JSON_stringify
             \<lparr> StorageData.memories =
                 [example_high, example_low, example_light, example_dark, example_tea],
               version = 1 \<rparr>)\<rparr>)"
proof -
  have "snd (list_m example_backend4 (Some 2) (Some 1))
      = example_backend4\<lparr>memories := [example_high, example_low, example_light, example_dark]\<rparr>"
    by (simp add: example_list)
  then show ?thesis
    by (simp add: remember_ok save_ok example_backend4_def example_fs_def
        example_input_def example_tea_def dirname_def)
qed

theorem list_sorts_in_place_witness:
  "memories example_backend4 = [example_low, example_light, example_high, example_dark] \<and>
   memories (snd (list_m example_backend4 (Some 2) (Some 1)))
     = [example_high, example_low, example_light, example_dark] \<and>
   sort_key (\<lambda>m. - updatedAt m) (memories example_backend4)
     = [example_high, example_low, example_light, example_dark] \<and>
   files (example_fs\<lparr>files := (files example_fs)([''home'', ''memories.json''] \<mapsto>
           JSON_stringify
             \<lparr> StorageData.memories =
                 [example_high, example_low, example_light, example_dark, example_tea],
               version = 1 \<rparr>)\<rparr>) [''home'', ''memories.json'']
     = Some (JSON_stringify
             \<lparr> StorageData.memories =
                 [example_high, example_low, example_light, example_dark, example_tea],
               version = 1 \<rparr>)"
proof -
  note inst = list_sorts_in_place [of example_backend4 "Some 2" "Some 1" example_fs "''m-9''"
      5000 example_input example_tea]
  have s: "sort_key (\<lambda>m. - updatedAt m) (memories example_backend4)
     = [example_high, example_low, example_light, example_dark]"
    using inst [THEN conjunct1] by (simp add: example_list)
  show ?thesis
    using s inst [THEN conjunct2, THEN conjunct2, THEN conjunct2, THEN conjunct2, rule_format,
        OF example_remember_sorted]
    by (simp add: example_list) (simp add: example_backend4_def)
qed

section \<open>The remote backend: responses that are no success\<close>

text \<open>
  Claim C9, as stated, fails for \<^verbatim>\<open>forget\<close>, which returns
  \<^verbatim>\<open>response.ok\<close> and never reads the body. A response with status \<open>404\<close>
  yields \<open>false\<close> and no failure: an unknown identifier is not an error for
  \<^verbatim>\<open>forget\<close>, as in the local backend. A response with status \<open>500\<close> yields
  \<open>false\<close> as well, where every other operation of the remote backend throws with the
  text of the body.
\<close>

theorem remote_forget_counterexample:
  "\<not> ok example_missing \<and>
   lh42_forget (\<lambda>request. Inr example_missing) \<lparr> memoryId = ''m-1'', reason = None \<rparr>
     = Inr False \<and>
   \<not> ok example_failure \<and>
   lh42_forget (\<lambda>request. Inr example_failure) \<lparr> memoryId = ''m-1'', reason = None \<rparr>
     = Inr False"
  by (simp add: lh42_forget_def ok_def example_failure_def example_missing_def)

text \<open>
  Claim C9, amended. For remember, recall, search and list, a response outside \<open>2xx\<close> is
  a failure whose message ends with the text of the body; for get the same holds unless
  the status is \<open>404\<close>, and a \<open>404\<close> gives the absent result. For forget, a \<open>2xx\<close>
  response gives true and a \<open>404\<close> gives false. Nothing is stated about forget on the
  other responses outside \<open>2xx\<close>.
\<close>

theorem remote_failures:
  "(\<not> ok response \<longrightarrow>
      lh42_remember (\<lambda>request. Inr response) nowIso input
        = Inl (HttpError (''Failed to store memory: '' @ body_text response)) \<and>
      lh42_recall (\<lambda>request. Inr response) nowIso rinput
        = Inl (HttpError (''Failed to recall memories: '' @ body_text response)) \<and>
      lh42_search (\<lambda>request. Inr response) nowIso sinput
        = Inl (HttpError (''Search failed: '' @ body_text response)) \<and>
      lh42_list (\<lambda>request. Inr response) nowIso lmt off
        = Inl (HttpError (''Failed to list memories: '' @ body_text response)) \<and>
      (status response \<noteq> 404 \<longrightarrow>
         lh42_get (\<lambda>request. Inr response) nowIso mid
           = Inl (HttpError (''Failed to get memory: '' @ body_text response)))) \<and>
   (status response = 404 \<longrightarrow>
      lh42_get (\<lambda>request. Inr response) nowIso mid = Inr None \<and>
      lh42_forget (\<lambda>request. Inr response) finput = Inr False) \<and>
   (ok response \<longrightarrow> lh42_forget (\<lambda>request. Inr response) finput = Inr True)"
  by (simp add: lh42_remember_def lh42_recall_def lh42_search_def lh42_list_def lh42_get_def
      lh42_forget_def ok_def)

theorem remote_failures_witness:
  "lh42_remember (\<lambda>request. Inr example_failure) ''2026-01-01T00:00:00.000Z'' example_input
     = Inl (HttpError ''Failed to store memory: database unavailable'') \<and>
   lh42_get (\<lambda>request. Inr example_failure) ''2026-01-01T00:00:00.000Z'' ''m-1''
     = Inl (HttpError ''Failed to get memory: database unavailable'') \<and>
   lh42_get (\<lambda>request. Inr example_missing) ''2026-01-01T00:00:00.000Z'' ''m-1'' = Inr None \<and>
   lh42_forget (\<lambda>request. Inr example_missing) \<lparr> memoryId = ''m-1'', reason = None \<rparr>
     = Inr False \<and>
   lh42_forget (\<lambda>request. Inr example_done) \<lparr> memoryId = ''m-1'', reason = None \<rparr>
     = Inr True"
proof -
  have f: "\<not> ok example_failure" "status example_failure \<noteq> 404"
    "body_text example_failure = ''database unavailable''"
    by (simp_all add: ok_def example_failure_def)
  have m: "\<not> ok example_missing" "status example_missing = 404"
    by (simp_all add: ok_def example_missing_def)
  have d: "ok example_done"
    by (simp add: ok_def example_done_def)
  show ?thesis
    using remote_failures [of example_failure "''2026-01-01T00:00:00.000Z''" example_input _ _ _ _
        "''m-1''"]
      remote_failures [of example_missing "''2026-01-01T00:00:00.000Z''" _ _ _ _ _ "''m-1''"
        "\<lparr> memoryId = ''m-1'', reason = None \<rparr>"]
      remote_failures [of example_done _ _ _ _ _ _ _ "\<lparr> memoryId = ''m-1'', reason = None \<rparr>"]
      f m d
    by simp
qed

end
